theory Spec2Isabelle
  imports Main "HOL-Library.Word"
begin

unbundle bit_operations_syntax

section \<open>bin2svf: binary image to SVF conversion\<close>

text \<open>
  A shallow embedding of \<^verbatim>\<open>bin2svf.c\<close>. Text written to standard output is a
  \<open>string\<close>; every function that prints returns the text it prints, in order (the
  page loop appends to the text it is given).
  A pointer together with its byte count (\<^verbatim>\<open>buf\<close>, \<^verbatim>\<open>len\<close>) is the list of the
  bytes it designates, so \<^verbatim>\<open>len\<close> is \<open>length buf\<close>, \<^verbatim>\<open>buf += n\<close> is \<open>drop n buf\<close>
  and a \<^verbatim>\<open>NULL\<close> pointer is \<open>None\<close>.
\<close>

type_synonym u8 = "8 word"
type_synonym u32 = "32 word"

subsection \<open>The host: byte order and libc's floating-point formatting\<close>

text \<open>
  Two things the program takes from the machine it runs on. \<open>big_endian\<close> is the byte
  order in which a \<^verbatim>\<open>uint32_t\<close> lies in memory; \<^verbatim>\<open>htonl\<close> and the dump of a struct's
  bytes both depend on it. \<open>printf_G ms\<close> is the text that
  \<^verbatim>\<open>printf("%G", (float)ms/1000)\<close> writes; floating-point formatting is libc's, and
  the program only ever embeds its result in a line of text.
\<close>

record host =
  big_endian :: bool
  printf_G :: "int \<Rightarrow> string"

text \<open>
  One host, for concrete runs: little-endian, with the text that C's \<^verbatim>\<open>%G\<close> gives for
  the durations this program can pass (2, 100 and the three erase times). No other
  duration reaches \<^verbatim>\<open>wait\<close>; the last branch only makes the function total.
\<close>

definition glibc_G :: "int \<Rightarrow> string" where
  "glibc_G ms =
     (if ms = 2 then ''0.002''
      else if ms = 100 then ''0.1''
      else if ms = 80000 then ''80''
      else if ms = 160000 then ''160''
      else if ms = 250000 then ''250''
      else ''?'')"

definition x86_host :: host where
  "x86_host = \<lparr>big_endian = False, printf_G = glibc_G\<rparr>"

definition le_bytes :: "u32 \<Rightarrow> u8 list" where
  "le_bytes x = [ucast x, ucast (drop_bit 8 x), ucast (drop_bit 16 x), ucast (drop_bit 24 x)]"

definition be_bytes :: "u32 \<Rightarrow> u8 list" where
  "be_bytes x = [ucast (drop_bit 24 x), ucast (drop_bit 16 x), ucast (drop_bit 8 x), ucast x]"

text \<open>The four bytes of a \<^verbatim>\<open>uint32_t\<close> object, lowest address first.\<close>

definition object_bytes :: "host \<Rightarrow> u32 \<Rightarrow> u8 list" where
  "object_bytes h x = (if big_endian h then be_bytes x else le_bytes x)"

text \<open>\<^verbatim>\<open>htonl\<close>: the identity on a big-endian host, a byte swap on a little-endian one.\<close>

definition htonl :: "host \<Rightarrow> u32 \<Rightarrow> u32" where
  "htonl h x =
     (if big_endian h then x
      else push_bit 24 (x AND 0xff) OR push_bit 8 (x AND 0xff00)
           OR drop_bit 8 (x AND 0xff0000) OR drop_bit 24 x)"

subsection \<open>printf conversions\<close>

definition hex_digit :: "nat \<Rightarrow> char" where
  "hex_digit d = ''0123456789abcdef'' ! d"

text \<open>\<^verbatim>\<open>%x\<close>: lowercase hexadecimal, no padding.\<close>

fun printf_x :: "nat \<Rightarrow> string" where
  "printf_x n =
     (if n < 16 then [hex_digit n] else printf_x (n div 16) @ [hex_digit (n mod 16)])"

declare printf_x.simps [simp del]

text \<open>\<^verbatim>\<open>%0wx\<close>: the same, padded on the left with zeros to at least \<open>w\<close> characters.\<close>

definition printf_0x :: "nat \<Rightarrow> nat \<Rightarrow> string" where
  "printf_0x w n = replicate (w - length (printf_x n)) (CHR ''0'') @ printf_x n"

subsection \<open>Constants\<close>

definition MODE_ERASE :: u32 where "MODE_ERASE = 0x1"
definition MODE_WRITE :: u32 where "MODE_WRITE = 0x2"
definition MODE_VERIFY :: u32 where "MODE_VERIFY = 0x4"

definition PAGE_OP_PROGRAM_TDI :: u8 where "PAGE_OP_PROGRAM_TDI = 0x40"
definition PAGE_OP_VERIFY_TDI :: u8 where "PAGE_OP_VERIFY_TDI = 0xc0"
definition PAGE_OP_VERIFY_TDO :: u8 where "PAGE_OP_VERIFY_TDO = 0x00"
definition PAGE_OP_VERIFY_MASK :: u8 where "PAGE_OP_VERIFY_MASK = 0x00"

text \<open>\<^verbatim>\<open>enum chip_size\<close>: a C enumeration is an \<^verbatim>\<open>int\<close>.\<close>

definition SIZE_4MB :: int where "SIZE_4MB = 0"
definition SIZE_8MB :: int where "SIZE_8MB = 1"
definition SIZE_16MB :: int where "SIZE_16MB = 2"

definition chip_size :: int where "chip_size = SIZE_16MB"

text \<open>
  \<^verbatim>\<open>erase_time\<close>: the default branch prints a message and ends the process
  (\<open>Inl\<close> carries the message); otherwise the time in milliseconds.
\<close>

definition erase_time :: "int \<Rightarrow> string + int" where
  "erase_time sz =
     (if sz = SIZE_4MB then Inr 80000
      else if sz = SIZE_8MB then Inr 160000
      else if sz = SIZE_16MB then Inr 250000
      else Inl ''Unsupported chip size\<newline>'')"

subsection \<open>Bit reversal\<close>

text \<open>
  \<^verbatim>\<open>for (i = 0; i < 8; i++) res |= ((v >> i) & 1) << (7 - i);\<close>
  The operands of the 8-bit variant are promoted to \<^verbatim>\<open>int\<close>; the compound
  assignment converts the result back to \<^verbatim>\<open>uint8_t\<close>.
\<close>

definition reverse_bits_8 :: "u8 \<Rightarrow> u8" where
  "reverse_bits_8 v =
     fold (\<lambda>i res. ucast ((ucast res :: 32 word) OR
                      push_bit (7 - i) (drop_bit i (ucast v :: 32 word) AND 1)))
          [0..<8] 0"

definition reverse_bits_32 :: "u32 \<Rightarrow> u32" where
  "reverse_bits_32 v =
     fold (\<lambda>i res. res OR push_bit (31 - i) (drop_bit i v AND 1)) [0..<32] 0"

subsection \<open>hexdump\<close>

text \<open>
  \<^verbatim>\<open>for (i = 0; i < len; i++) printf("%02x", buf[i]);\<close>
  The parameter \<^verbatim>\<open>uppercase\<close> is never read.
\<close>

fun hexdump :: "u8 list \<Rightarrow> bool \<Rightarrow> string" where
  "hexdump [] uppercase = []"
| "hexdump (b # bs) uppercase = printf_0x 2 (unat b) @ hexdump bs uppercase"

subsection \<open>Page patterns\<close>

record page_pattern =
  data :: "u8 list"
  addr_and_op :: u32

text \<open>
  The bytes of a \<^verbatim>\<open>struct page_pattern\<close> object as \<^verbatim>\<open>(uint8_t *)&pattern\<close> reads
  them: the array, then the 32-bit field in the host's byte order (the field's offset
  256 is a multiple of its alignment, so there is no padding and \<^verbatim>\<open>sizeof\<close> is 260).
\<close>

definition pattern_bytes :: "host \<Rightarrow> page_pattern \<Rightarrow> u8 list" where
  "pattern_bytes h p = data p @ object_bytes h (addr_and_op p)"

text \<open>
  An automatic \<^verbatim>\<open>struct page_pattern\<close> before anything is stored in it. C leaves its
  contents indeterminate; this fixed array stands for them, and
  \<open>create_page_pattern_overwrites\<close> below shows that nothing computed from a pattern
  depends on the choice.
\<close>

definition auto_pattern :: page_pattern where
  "auto_pattern = \<lparr>data = replicate 256 0, addr_and_op = 0\<rparr>"

text \<open>
  \<^verbatim>\<open>create_page_pattern\<close>. \<open>buf = None\<close> is the \<^verbatim>\<open>NULL\<close> pointer, for which the code
  sets \<^verbatim>\<open>len = 0\<close>. The contract of the C function is \<open>len \<le> 256\<close>: for a longer
  buffer the store \<^verbatim>\<open>pattern->data[255-i]\<close> leaves the array, which has no meaning in
  C, and nothing is stated about the model there.
\<close>

definition create_page_pattern ::
  "host \<Rightarrow> page_pattern \<Rightarrow> u8 list option \<Rightarrow> u32 \<Rightarrow> u8 \<Rightarrow> page_pattern \<times> int" where
  "create_page_pattern h pattern buf page_addr op =
     (let bytes = (case buf of None \<Rightarrow> [] | Some bs \<Rightarrow> bs);
          len = length bytes;
          d1 = fold (\<lambda>i d. d[255 - i := reverse_bits_8 (bytes ! i)]) [0..<len] (data pattern);
          d2 = fold (\<lambda>i d. d[255 - i := 0xff]) [len..<256] d1;
          addr = (if op = PAGE_OP_VERIFY_TDO \<or> op = PAGE_OP_VERIFY_MASK then 0
                  else htonl h (reverse_bits_32 page_addr))
      in (pattern\<lparr>data := d2, addr_and_op := addr OR htonl h (ucast op)\<rparr>, 0))"

subsection \<open>Command emitters\<close>

definition trst :: "int \<Rightarrow> string" where
  "trst on = ''TRST '' @ (if on \<noteq> 0 then ''ON'' else ''OFF'') @ '';\<newline>\<newline>''"

definition set_frequency :: string where
  "set_frequency = ''FREQUENCY 5.00e+006 HZ;\<newline>\<newline>''"

definition write_enable :: string where
  "write_enable = ''! Write enable\<newline>'' @ ''SDR 8 TDI(60);\<newline>\<newline>''"

definition write_disable :: string where
  "write_disable = ''! Write disable\<newline>'' @ ''SDR 8 TDI(20);\<newline>\<newline>''"

definition wait :: "host \<Rightarrow> int \<Rightarrow> string" where
  "wait h ms = ''RUNTEST IDLE '' @ printf_G h ms @ '' SEC ENDSTATE IDLE;\<newline>\<newline>''"

definition clear_software_protect :: string where
  "clear_software_protect = ''! Clear software protect\<newline>'' @ ''SDR 16 TDI(0080);\<newline>\<newline>''"

definition check_no_software_protect :: string where
  "check_no_software_protect =
     ''! Check no software protect\<newline>'' @ ''SDR 16 TDI(ffa0) TDO(c6ff) MASK(3900);\<newline>\<newline>''"

definition check_status :: string where
  "check_status = ''! Check status\<newline>'' @ ''SDR 16 TDI(ffa0) TDO(0000) MASK(8000);\<newline>\<newline>''"

definition bulk_erase :: string where
  "bulk_erase = ''! Bulk erase\<newline>'' @ ''SDR 8 TDI(e3);\<newline>\<newline>''"

subsection \<open>Page operations\<close>

text \<open>Both return the C function's result and the text printed before it returned.\<close>

definition send_page_program :: "host \<Rightarrow> u8 list \<Rightarrow> u32 \<Rightarrow> int \<times> string" where
  "send_page_program h buf addr =
     (let (pattern, rc) = create_page_pattern h auto_pattern (Some buf) addr PAGE_OP_PROGRAM_TDI
      in if rc < 0 then (rc, [])
         else (0, write_enable
                  @ ''! Program page: 0x'' @ printf_0x 8 (unat addr) @ ''\<newline>''
                  @ ''SDR 2080 TDI (''
                  @ hexdump (pattern_bytes h pattern) False
                  @ '');\<newline>\<newline>''
                  @ write_disable
                  @ wait h 2))"

text \<open>
  \<^verbatim>\<open>send_page_verify\<close> fills its one local \<^verbatim>\<open>pattern\<close> three times. The three
  calls of \<^verbatim>\<open>create_page_pattern\<close>, each on what the call before left in the struct:
\<close>

definition verify_tdi_pattern :: "host \<Rightarrow> u32 \<Rightarrow> page_pattern \<times> int" where
  "verify_tdi_pattern h addr =
     create_page_pattern h auto_pattern None addr PAGE_OP_VERIFY_TDI"

definition verify_tdo_pattern :: "host \<Rightarrow> u8 list \<Rightarrow> u32 \<Rightarrow> page_pattern \<times> int" where
  "verify_tdo_pattern h buf addr =
     create_page_pattern h (fst (verify_tdi_pattern h addr)) (Some buf) addr PAGE_OP_VERIFY_TDO"

definition verify_mask_pattern :: "host \<Rightarrow> u8 list \<Rightarrow> u32 \<Rightarrow> page_pattern \<times> int" where
  "verify_mask_pattern h buf addr =
     create_page_pattern h (fst (verify_tdo_pattern h buf addr)) None addr PAGE_OP_VERIFY_MASK"

definition send_page_verify :: "host \<Rightarrow> u8 list \<Rightarrow> u32 \<Rightarrow> int \<times> string" where
  "send_page_verify h buf addr =
     (let (pattern1, rc1) = verify_tdi_pattern h addr
      in if rc1 < 0 then (rc1, [])
         else
           let out1 = ''! Verify page: 0x'' @ printf_0x 8 (unat addr) @ ''\<newline>''
                      @ ''SDR 2080 TDI ('' @ hexdump (pattern_bytes h pattern1) True
                      @ '')\<newline>'';
               (pattern2, rc2) = verify_tdo_pattern h buf addr
           in if rc2 < 0 then (rc2, out1)
              else
                let out2 = out1 @ ''TDO ('' @ hexdump (pattern_bytes h pattern2) False
                           @ '')\<newline>'';
                    (pattern3, rc3) = verify_mask_pattern h buf addr
                in if rc3 < 0 then (rc3, out2)
                   else (0, out2 @ ''MASK ('' @ hexdump (pattern_bytes h pattern3) True
                            @ '');\<newline>''))"

subsection \<open>generate_svf\<close>

text \<open>
  \<^verbatim>\<open>for (int i = 0; i < blen; i++) if (buf[i] != 0xFF) { all_ones = 0; break; }\<close>
  over the \<open>blen\<close> bytes of the page, starting from \<^verbatim>\<open>all_ones = 1\<close>.
\<close>

fun scan_all_ones :: "u8 list \<Rightarrow> int" where
  "scan_all_ones [] = 1"
| "scan_all_ones (b # bs) = (if b \<noteq> 0xFF then 0 else scan_all_ones bs)"

text \<open>
  The state of one pass through the body of the \<^verbatim>\<open>do\<close> loop, up to the point where
  the length and the pointers are advanced: the text printed, the local \<^verbatim>\<open>rc\<close>
  (\<open>None\<close> while it has never been assigned) and whether the pass left by
  \<^verbatim>\<open>goto out\<close>.
\<close>

record pass =
  printed :: string
  rc :: "int option"
  goto_out :: bool

text \<open>
  The second half of the loop body (``Verify if asked to. Always verify after write.''),
  entered with the text and \<^verbatim>\<open>rc\<close> that the first half left in \<open>s\<close> and with
  \<^verbatim>\<open>written\<close>.
\<close>

definition verify_step :: "host \<Rightarrow> u32 \<Rightarrow> u8 list \<Rightarrow> u32 \<Rightarrow> int \<Rightarrow> pass \<Rightarrow> pass" where
  "verify_step h mode page addr written s =
     (if mode AND MODE_VERIFY \<noteq> 0 \<or> (mode AND MODE_WRITE \<noteq> 0 \<and> written \<noteq> 0) then
        (let (r, out) = send_page_verify h page addr
         in \<lparr>printed = printed s @ out, rc = Some r, goto_out = r < 0\<rparr>)
      else s)"

text \<open>
  One pass: \<^verbatim>\<open>all_ones\<close>, the program step unless the mode or an erased page rules it
  out, then the verify step. \<open>rc0\<close> is \<^verbatim>\<open>rc\<close> on entry.
\<close>

definition page_pass :: "host \<Rightarrow> u32 \<Rightarrow> u8 list \<Rightarrow> u32 \<Rightarrow> int option \<Rightarrow> pass" where
  "page_pass h mode page addr rc0 =
     (let all_ones = scan_all_ones page;
          s0 = \<lparr>printed = [], rc = rc0, goto_out = False\<rparr>
      in if mode AND MODE_WRITE \<noteq> 0 then
           if mode AND MODE_ERASE = 0 \<or> all_ones = 0 then
             (let (r, out) = send_page_program h page addr
              in if r < 0 then \<lparr>printed = out, rc = Some r, goto_out = True\<rparr>
                 else verify_step h mode page addr 1 \<lparr>printed = out, rc = Some r, goto_out = False\<rparr>)
           else verify_step h mode page addr 0 s0
         else verify_step h mode page addr 0 s0)"

text \<open>
  The \<^verbatim>\<open>do { ... } while (len)\<close> loop. The body runs before the test, so it runs once
  for an empty buffer as well. The result is the text printed by the loop, \<^verbatim>\<open>rc\<close>,
  and whether the loop was left by \<^verbatim>\<open>goto out\<close>.
\<close>

function page_loop :: "host \<Rightarrow> u32 \<Rightarrow> u8 list \<Rightarrow> u32 \<Rightarrow> string \<Rightarrow> int option \<Rightarrow> pass" where
  "page_loop h mode buf addr out rc0 =
     (let blen = (if length buf < 256 then length buf else 256);
          s = page_pass h mode (take blen buf) addr rc0
      in if goto_out s then s\<lparr>printed := out @ printed s\<rparr>
         else if length buf - blen \<noteq> 0
           then page_loop h mode (drop blen buf) (addr + of_nat blen) (out @ printed s) (rc s)
           else s\<lparr>printed := out @ printed s\<rparr>)"
  by pat_completeness auto
termination
  by (relation "measure (\<lambda>(h, mode, buf, addr, out, rc0). length buf)") (auto split: if_splits)

declare page_loop.simps [simp del]

text \<open>
  The passes of that loop when none of them leaves by \<^verbatim>\<open>goto out\<close>: the address
  and the bytes (\<^verbatim>\<open>blen\<close> of them) that each pass works on, by the loop's own
  \<^verbatim>\<open>blen\<close>, \<^verbatim>\<open>len -= blen\<close>, \<^verbatim>\<open>buf += blen\<close>, \<^verbatim>\<open>addr += blen\<close> and
  \<^verbatim>\<open>while (len)\<close>.
\<close>

function passes :: "u8 list \<Rightarrow> u32 \<Rightarrow> (u32 \<times> u8 list) list" where
  "passes buf addr =
     (let blen = (if length buf < 256 then length buf else 256)
      in (addr, take blen buf) #
         (if length buf - blen \<noteq> 0 then passes (drop blen buf) (addr + of_nat blen) else []))"
  by pat_completeness auto
termination
  by (relation "measure (\<lambda>(buf, addr). length buf)") (auto split: if_splits)

declare passes.simps [simp del]

text \<open>
  How a call of \<^verbatim>\<open>generate_svf\<close> ends: the process exits inside \<^verbatim>\<open>erase_time\<close>, or
  the function returns \<^verbatim>\<open>rc\<close>, which is \<open>None\<close> when no assignment to it was ever
  executed (the C value is then indeterminate). Both carry the text printed so far.
\<close>

datatype outcome = Exited (out_text: string) | Returned (out_text: string) (ret: "int option")

definition generate_svf :: "host \<Rightarrow> u8 list \<Rightarrow> u32 \<Rightarrow> u32 \<Rightarrow> outcome" where
  "generate_svf h buf addr mode =
     (let out0 = trst 0 @ set_frequency @ write_enable @ clear_software_protect
                 @ write_disable @ wait h 100 @ check_no_software_protect
      in case (if mode AND MODE_ERASE \<noteq> 0 then
                 (case erase_time chip_size of
                    Inl msg \<Rightarrow> Inl (out0 @ write_enable @ bulk_erase @ write_disable @ msg)
                  | Inr ms \<Rightarrow> Inr (out0 @ write_enable @ bulk_erase @ write_disable
                                   @ wait h ms @ check_status))
               else Inr out0) of
           Inl out \<Rightarrow> Exited out
         | Inr out1 \<Rightarrow>
             (let s = page_loop h mode buf addr out1 None
              in if goto_out s then Returned (printed s) (rc s)
                 else Returned (printed s @ trst 1) (rc s)))"

subsection \<open>Hex rendering as the specification words it\<close>

text \<open>
  Not from the code: plain lowercase hex, two digits per byte, most significant digit
  first, no separators, in the order of the bytes. \<open>hexdump\<close> is compared with it below.
\<close>

definition spec_hex_rendering :: "u8 list \<Rightarrow> string" where
  "spec_hex_rendering bs =
     concat (map (\<lambda>b. [''0123456789abcdef'' ! (unat b div 16),
                        ''0123456789abcdef'' ! (unat b mod 16)]) bs)"

section \<open>Properties of the bit reversal\<close>

text \<open>Each loop, stopped after \<open>k\<close> rounds: the bits moved so far are in place.\<close>

lemma reverse_bits_8_rounds:
  "k \<le> 8 \<Longrightarrow>
   bit (fold (\<lambda>i res. ucast ((ucast res :: 32 word) OR
                          push_bit (7 - i) (drop_bit i (ucast v :: 32 word) AND 1)))
             [0..<k] (0::u8)) n
   \<longleftrightarrow> n < 8 \<and> 7 - n < k \<and> bit v (7 - n)"
proof (induction k)
  case 0
  then show ?case by simp
next
  case (Suc k)
  then show ?case by (auto simp: bit_simps less_Suc_eq)
qed

lemma reverse_bits_32_rounds:
  "k \<le> 32 \<Longrightarrow>
   bit (fold (\<lambda>i res. res OR push_bit (31 - i) (drop_bit i v AND 1)) [0..<k] (0::u32)) n
   \<longleftrightarrow> n < 32 \<and> 31 - n < k \<and> bit v (31 - n)"
proof (induction k)
  case 0
  then show ?case by simp
next
  case (Suc k)
  then show ?case by (auto simp: bit_simps less_Suc_eq)
qed

lemma bit_reverse_bits_8: "bit (reverse_bits_8 v) n \<longleftrightarrow> n < 8 \<and> bit v (7 - n)"
  unfolding reverse_bits_8_def by (subst reverse_bits_8_rounds) auto

lemma bit_reverse_bits_32: "bit (reverse_bits_32 v) n \<longleftrightarrow> n < 32 \<and> bit v (31 - n)"
  unfolding reverse_bits_32_def by (subst reverse_bits_32_rounds) auto

lemma reverse_bits_8_word_reverse: "reverse_bits_8 v = word_reverse v"
  by (rule bit_word_eqI) (auto simp: bit_reverse_bits_8 bit_word_reverse_iff)

lemma reverse_bits_32_word_reverse: "reverse_bits_32 v = word_reverse v"
  by (rule bit_word_eqI) (auto simp: bit_reverse_bits_32 bit_word_reverse_iff)

text \<open>
  C8. Bit reversal is an involution: reversing the bits of a byte twice gives the byte
  back, and the same holds for the 32-bit variant.
\<close>

theorem reverse_bits_involution:
  "reverse_bits_8 (reverse_bits_8 v) = v \<and> reverse_bits_32 (reverse_bits_32 w) = w"
proof
  show "reverse_bits_8 (reverse_bits_8 v) = v"
    by (rule bit_word_eqI) (auto simp: bit_reverse_bits_8)
  show "reverse_bits_32 (reverse_bits_32 w) = w"
    by (rule bit_word_eqI) (auto simp: bit_reverse_bits_32)
qed

section \<open>Byte order\<close>

lemma byte_masks:
  "(0xff :: u32) = mask 8" "(0xff00 :: u32) = push_bit 8 (mask 8)"
  "(0xff0000 :: u32) = push_bit 16 (mask 8)"
  by (simp_all add: mask_eq_exp_minus_1 push_bit_eq_mult)

lemma bit_htonl_le:
  assumes "\<not> big_endian h"
  shows "bit (htonl h x) n \<longleftrightarrow> n < 32 \<and> bit x (8 * (3 - n div 8) + n mod 8)"
proof -
  consider "n < 8" | "8 \<le> n" "n < 16" | "16 \<le> n" "n < 24" | "24 \<le> n" "n < 32" | "32 \<le> n"
    by linarith
  then show ?thesis
  proof cases
    case 1
    then have "n div 8 = 0" "n mod 8 = n" by simp_all
    with 1 assms show ?thesis
      by (auto simp: htonl_def byte_masks bit_simps dest: bit_imp_le_length)
  next
    case 2
    then have "n div 8 = 1" "n mod 8 = n - 8" by presburger+
    with 2 assms show ?thesis
      by (auto simp: htonl_def byte_masks bit_simps dest: bit_imp_le_length)
  next
    case 3
    then have "n div 8 = 2" "n mod 8 = n - 16" by presburger+
    with 3 assms show ?thesis
      by (auto simp: htonl_def byte_masks bit_simps dest: bit_imp_le_length)
  next
    case 4
    then have "n div 8 = 3" "n mod 8 = n - 24" by presburger+
    with 4 assms show ?thesis
      by (auto simp: htonl_def byte_masks bit_simps dest: bit_imp_le_length)
  next
    case 5
    with assms show ?thesis
      by (auto simp: htonl_def byte_masks bit_simps dest: bit_imp_le_length)
  qed
qed

lemma bit_htonl:
  "bit (htonl h x) n \<longleftrightarrow>
     (if big_endian h then bit x n
      else n < 32 \<and> bit x (8 * (3 - n div 8) + n mod 8))"
  by (simp add: bit_htonl_le) (simp add: htonl_def)

lemma htonl_and: "htonl h x AND htonl h y = htonl h (x AND y)"
  by (rule bit_word_eqI) (simp add: bit_htonl bit_and_iff)

lemma htonl_or: "htonl h x OR htonl h y = htonl h (x OR y)"
  by (rule bit_word_eqI) (auto simp add: bit_htonl bit_or_iff)

lemma htonl_zero: "htonl h 0 = 0"
  by (rule bit_word_eqI) (simp add: bit_htonl)

lemma le_bytes_htonl:
  assumes "\<not> big_endian h"
  shows "le_bytes (htonl h x) = be_bytes x"
proof -
  have b: "n < 8 \<Longrightarrow> (n + 8) div 8 = 1 \<and> (n + 8) mod 8 = n \<and> n div 8 = 0
         \<and> (n + 16) div 8 = 2 \<and> (n + 16) mod 8 = n
         \<and> (n + 24) div 8 = 3 \<and> (n + 24) mod 8 = n" for n :: nat
    by (simp add: div_if mod_if)
  show ?thesis
    unfolding le_bytes_def be_bytes_def list.inject
    by (intro conjI bit_word_eqI; simp add: bit_simps bit_htonl_le [OF assms] b add.commute)
qed

text \<open>
  Whatever the host's byte order, the object that \<^verbatim>\<open>htonl\<close> returns lies in memory
  with its most significant byte first.
\<close>

lemma object_bytes_htonl: "object_bytes h (htonl h x) = be_bytes x"
  by (cases "big_endian h") (simp_all add: object_bytes_def le_bytes_htonl, simp add: htonl_def)

lemma be_bytes_ucast: "be_bytes (ucast (b :: u8)) = [0, 0, 0, b]"
  unfolding be_bytes_def list.inject
  by (intro conjI bit_word_eqI; auto simp: bit_simps dest: bit_imp_le_length)

lemma bit_below: "a < 2 ^ k \<Longrightarrow> k \<le> n \<Longrightarrow> \<not> bit (a :: u32) n"
  by (metis less_mask_eq bit_and_iff bit_mask_iff not_le)

section \<open>The page pattern encoder\<close>

lemma length_fold_update:
  "length (fold (\<lambda>i d. d[g i := f i]) is d) = length d"
  by (induction "is" arbitrary: d) auto

lemma nth_fold_update_upt:
  assumes "length d = 256" "j < 256" "b \<le> 256"
  shows "fold (\<lambda>i d. d[255 - i := f i]) [a..<b] d ! j =
           (if a \<le> 255 - j \<and> 255 - j < b then f (255 - j) else d ! j)"
  using assms(3)
proof (induction b)
  case 0
  then show ?case by simp
next
  case (Suc b)
  show ?case
  proof (cases "a \<le> b")
    case True
    have len: "length (fold (\<lambda>i d. d[255 - i := f i]) [a..<b] d) = 256"
      by (simp add: length_fold_update assms(1))
    from True Suc assms(2) len show ?thesis
      by (auto simp: nth_list_update)
  next
    case False
    then have "\<not> (a \<le> 255 - j \<and> 255 - j < Suc b)" by arith
    with False show ?thesis by auto
  qed
qed

lemma fill_data:
  assumes "length d = 256" "length bs \<le> 256"
  shows "fold (\<lambda>i d. d[255 - i := 0xff]) [length bs..<256]
           (fold (\<lambda>i d. d[255 - i := reverse_bits_8 (bs ! i)]) [0..<length bs] d)
         = replicate (256 - length bs) 0xff @ rev (map reverse_bits_8 bs)"
proof (rule nth_equalityI)
  show "length (fold (\<lambda>i d. d[255 - i := 0xff]) [length bs..<256]
           (fold (\<lambda>i d. d[255 - i := reverse_bits_8 (bs ! i)]) [0..<length bs] d))
        = length (replicate (256 - length bs) (0xff::u8) @ rev (map reverse_bits_8 bs))"
    using assms by (simp add: length_fold_update)
next
  fix j
  assume "j < length (fold (\<lambda>i d. d[255 - i := 0xff]) [length bs..<256]
           (fold (\<lambda>i d. d[255 - i := reverse_bits_8 (bs ! i)]) [0..<length bs] d))"
  then have j: "j < 256" using assms by (simp add: length_fold_update)
  have len1: "length (fold (\<lambda>i d. d[255 - i := reverse_bits_8 (bs ! i)]) [0..<length bs] d) = 256"
    using assms by (simp add: length_fold_update)
  show "fold (\<lambda>i d. d[255 - i := 0xff]) [length bs..<256]
           (fold (\<lambda>i d. d[255 - i := reverse_bits_8 (bs ! i)]) [0..<length bs] d) ! j
        = (replicate (256 - length bs) 0xff @ rev (map reverse_bits_8 bs)) ! j"
  proof (cases "j < 256 - length bs")
    case True
    then have "length bs \<le> 255 - j" "255 - j < 256" "\<not> 255 - j < length bs" by arith+
    with True show ?thesis
      using j assms by (simp add: nth_fold_update_upt [OF len1] nth_append)
  next
    case False
    then have "255 - j < length bs" using j by arith
    moreover have "length bs - Suc (j - (256 - length bs)) = 255 - j"
      using False j assms by arith
    ultimately show ?thesis
      using j assms False
      by (simp add: nth_fold_update_upt [OF len1] nth_fold_update_upt [OF assms(1)]
                    nth_append rev_nth)
  qed
qed


lemma create_page_pattern_Some:
  assumes "length (data p) = 256" "length bs \<le> 256"
  shows "create_page_pattern h p (Some bs) a op =
           (p\<lparr>data := replicate (256 - length bs) 0xff @ rev (map reverse_bits_8 bs),
              addr_and_op := (if op = PAGE_OP_VERIFY_TDO \<or> op = PAGE_OP_VERIFY_MASK then 0
                              else htonl h (reverse_bits_32 a)) OR htonl h (ucast op)\<rparr>, 0)"
  using fill_data [OF assms] by (simp add: create_page_pattern_def Let_def)

lemma create_page_pattern_None:
  assumes "length (data p) = 256"
  shows "create_page_pattern h p None a op =
           (p\<lparr>data := replicate 256 0xff,
              addr_and_op := (if op = PAGE_OP_VERIFY_TDO \<or> op = PAGE_OP_VERIFY_MASK then 0
                              else htonl h (reverse_bits_32 a)) OR htonl h (ucast op)\<rparr>, 0)"
  using fill_data [OF assms, of "[]"] by (simp add: create_page_pattern_def Let_def)

lemma create_page_pattern_overwrites:
  assumes "length (data p) = 256" "length (data q) = 256" "length bs \<le> 256"
  shows "pattern_bytes h (fst (create_page_pattern h p (Some bs) a op))
           = pattern_bytes h (fst (create_page_pattern h q (Some bs) a op))"
    and "pattern_bytes h (fst (create_page_pattern h p None a op))
           = pattern_bytes h (fst (create_page_pattern h q None a op))"
  using assms by (simp_all add: create_page_pattern_Some create_page_pattern_None pattern_bytes_def)

text \<open>
  C3. For a buffer of at most 256 bytes, any page address and any opcode,
  \<^verbatim>\<open>create_page_pattern\<close> leaves exactly 256 data bytes: input byte \<open>i\<close> is found
  bit-reversed at position \<open>255 - i\<close>, every position from 0 up to \<open>255 - L\<close> holds
  \<open>0xFF\<close>, and \<^verbatim>\<open>addr_and_op\<close> is \<^verbatim>\<open>htonl\<close> of the reversed page address OR'ed with
  \<^verbatim>\<open>htonl\<close> of the opcode, the address part being zero for \<^verbatim>\<open>VERIFY_TDO\<close> and
  \<^verbatim>\<open>VERIFY_MASK\<close>. In memory the field is the big-endian packing of the reversed
  address OR'ed with the opcode, on either byte order.
\<close>

theorem create_page_pattern_layout:
  assumes "length (data p) = 256" and "length bs \<le> 256"
  shows "length (data (fst (create_page_pattern h p (Some bs) page_addr op))) = 256
       \<and> (\<forall>i < length bs.
            data (fst (create_page_pattern h p (Some bs) page_addr op)) ! (255 - i)
              = reverse_bits_8 (bs ! i))
       \<and> (\<forall>j. j + length bs \<le> 255 \<longrightarrow>
            data (fst (create_page_pattern h p (Some bs) page_addr op)) ! j = 0xFF)
       \<and> addr_and_op (fst (create_page_pattern h p (Some bs) page_addr op))
            = (if op = PAGE_OP_VERIFY_TDO \<or> op = PAGE_OP_VERIFY_MASK then 0
               else htonl h (reverse_bits_32 page_addr)) OR htonl h (ucast op)
       \<and> object_bytes h (addr_and_op (fst (create_page_pattern h p (Some bs) page_addr op)))
            = be_bytes ((if op = PAGE_OP_VERIFY_TDO \<or> op = PAGE_OP_VERIFY_MASK then 0
                         else reverse_bits_32 page_addr) OR ucast op)"
proof (intro conjI allI impI)
  let ?d = "data (fst (create_page_pattern h p (Some bs) page_addr op))"
  have d: "?d = replicate (256 - length bs) 0xff @ rev (map reverse_bits_8 bs)"
    by (simp add: create_page_pattern_Some [OF assms])
  show "length ?d = 256" using assms(2) by (simp add: d)
  show "?d ! (255 - i) = reverse_bits_8 (bs ! i)" if "i < length bs" for i
  proof -
    have "255 - i - (256 - length bs) = length bs - Suc i" "\<not> 255 - i < 256 - length bs"
      using that assms(2) by arith+
    then show ?thesis using that by (simp add: d nth_append rev_nth)
  qed
  show "?d ! j = 0xFF" if "j + length bs \<le> 255" for j
  proof -
    have "j < 256 - length bs" using that by arith
    then show ?thesis by (simp add: d nth_append)
  qed
  show "addr_and_op (fst (create_page_pattern h p (Some bs) page_addr op))
            = (if op = PAGE_OP_VERIFY_TDO \<or> op = PAGE_OP_VERIFY_MASK then 0
               else htonl h (reverse_bits_32 page_addr)) OR htonl h (ucast op)"
    by (simp add: create_page_pattern_Some [OF assms])
  show "object_bytes h (addr_and_op (fst (create_page_pattern h p (Some bs) page_addr op)))
            = be_bytes ((if op = PAGE_OP_VERIFY_TDO \<or> op = PAGE_OP_VERIFY_MASK then 0
                         else reverse_bits_32 page_addr) OR ucast op)"
  proof (cases "op = PAGE_OP_VERIFY_TDO \<or> op = PAGE_OP_VERIFY_MASK")
    case True
    then show ?thesis
      by (simp add: create_page_pattern_Some [OF assms] object_bytes_htonl)
  next
    case False
    then show ?thesis
      by (simp add: create_page_pattern_Some [OF assms] htonl_or object_bytes_htonl)
  qed
qed

lemma reverse_bits_8_examples: "reverse_bits_8 1 = 0x80" "reverse_bits_8 2 = 0x40"
  by code_simp+

theorem create_page_pattern_layout_witness:
  "length (data auto_pattern) = 256 \<and> length [1, 2 :: u8] \<le> 256
   \<and> length (data (fst (create_page_pattern x86_host auto_pattern (Some [1, 2]) 0x800000
                          PAGE_OP_PROGRAM_TDI))) = 256
   \<and> data (fst (create_page_pattern x86_host auto_pattern (Some [1, 2]) 0x800000
                  PAGE_OP_PROGRAM_TDI)) ! 255 = 0x80
   \<and> data (fst (create_page_pattern x86_host auto_pattern (Some [1, 2]) 0x800000
                  PAGE_OP_PROGRAM_TDI)) ! 254 = 0x40
   \<and> data (fst (create_page_pattern x86_host auto_pattern (Some [1, 2]) 0x800000
                  PAGE_OP_PROGRAM_TDI)) ! 253 = 0xFF"
proof -
  have a: "length (data auto_pattern) = 256" by (simp add: auto_pattern_def)
  have b: "length [1, 2 :: u8] \<le> 256" by simp
  note t = create_page_pattern_layout [OF a b, of x86_host "0x800000" PAGE_OP_PROGRAM_TDI]
  note data_at = t [THEN conjunct2, THEN conjunct1, rule_format]
  note fill_at = t [THEN conjunct2, THEN conjunct2, THEN conjunct1, rule_format]
  from t [THEN conjunct1] data_at [of 0] data_at [of 1] fill_at [of 253] a b
  show ?thesis by (simp add: reverse_bits_8_examples)
qed

text \<open>
  C6. For a page address that is a multiple of 256 below 16 MiB and each of the four
  opcodes, the packed reversed address and the packed opcode share no set bit, so OR'ing
  them is the same as adding them.
\<close>

theorem addr_and_op_disjoint:
  assumes "256 dvd unat page_addr" and "unat page_addr < 16 * 1024 * 1024"
    and "op \<in> {PAGE_OP_PROGRAM_TDI, PAGE_OP_VERIFY_TDI, PAGE_OP_VERIFY_TDO, PAGE_OP_VERIFY_MASK}"
  shows "htonl h (reverse_bits_32 page_addr) AND htonl h (ucast op) = 0
       \<and> htonl h (reverse_bits_32 page_addr) OR htonl h (ucast op)
           = htonl h (reverse_bits_32 page_addr) + htonl h (ucast op)"
proof -
  have small: "page_addr < 2 ^ 24"
    using assms(2) by (simp add: word_less_nat_alt)
  have "reverse_bits_32 page_addr AND ucast op = 0"
  proof (rule bit_word_eqI)
    fix n assume "n < LENGTH(32)"
    show "bit (reverse_bits_32 page_addr AND ucast op) n \<longleftrightarrow> bit (0 :: u32) n"
    proof (cases "n < 8")
      case True
      then have "\<not> bit page_addr (31 - n)" by (intro bit_below [OF small]) simp
      then show ?thesis by (simp add: bit_and_iff bit_reverse_bits_32)
    next
      case False
      then have "\<not> bit (ucast op :: u32) n"
        by (auto simp: bit_ucast_iff dest: bit_imp_le_length)
      then show ?thesis by (simp add: bit_and_iff)
    qed
  qed
  then have z: "htonl h (reverse_bits_32 page_addr) AND htonl h (ucast op) = 0"
    by (simp add: htonl_and htonl_zero)
  from disjunctive_add_eq_or [OF z] z show ?thesis by simp
qed

theorem addr_and_op_disjoint_witness:
  "256 dvd unat (0x800000 :: u32) \<and> unat (0x800000 :: u32) < 16 * 1024 * 1024
   \<and> PAGE_OP_PROGRAM_TDI \<in> {PAGE_OP_PROGRAM_TDI, PAGE_OP_VERIFY_TDI, PAGE_OP_VERIFY_TDO,
                               PAGE_OP_VERIFY_MASK}
   \<and> htonl x86_host (reverse_bits_32 0x800000) AND htonl x86_host (ucast PAGE_OP_PROGRAM_TDI) = 0
   \<and> htonl x86_host (reverse_bits_32 0x800000) OR htonl x86_host (ucast PAGE_OP_PROGRAM_TDI)
       = htonl x86_host (reverse_bits_32 0x800000) + htonl x86_host (ucast PAGE_OP_PROGRAM_TDI)"
proof -
  have a: "256 dvd unat (0x800000 :: u32)" by simp
  have b: "unat (0x800000 :: u32) < 16 * 1024 * 1024" by simp
  have c: "PAGE_OP_PROGRAM_TDI \<in> {PAGE_OP_PROGRAM_TDI, PAGE_OP_VERIFY_TDI, PAGE_OP_VERIFY_TDO,
                               PAGE_OP_VERIFY_MASK}" by simp
  from addr_and_op_disjoint [OF a b c, of x86_host] a b c show ?thesis by blast
qed


section \<open>Hex dumps and page operations\<close>

lemma printf_02x_byte:
  "printf_0x 2 (unat (b :: u8)) = [hex_digit (unat b div 16), hex_digit (unat b mod 16)]"
proof (cases "unat b < 16")
  case True
  then show ?thesis
    by (simp add: printf_0x_def printf_x.simps [of "unat b"] hex_digit_def)
next
  case False
  have "unat b < 256" using unsigned_less [of b] by simp
  then have "unat b div 16 < 16" by simp
  with False show ?thesis
    by (simp add: printf_0x_def printf_x.simps [of "unat b"] printf_x.simps [of "unat b div 16"])
qed

lemma hexdump_pairs: "hexdump bs up = spec_hex_rendering bs"
  by (induction bs) (simp_all add: spec_hex_rendering_def printf_02x_byte hex_digit_def)

lemma hexdump_append: "hexdump (xs @ ys) up = hexdump xs up @ hexdump ys up"
  by (induction xs) simp_all

lemma length_hexdump: "length (hexdump bs up) = 2 * length bs"
  by (induction bs) (simp_all add: printf_02x_byte)

lemma hex_digit_in: "d < 16 \<Longrightarrow> hex_digit d \<in> set ''0123456789abcdef''"
  unfolding hex_digit_def by (rule nth_mem) simp

lemma set_hexdump: "set (hexdump bs up) \<subseteq> set ''0123456789abcdef''"
proof (induction bs)
  case Nil
  then show ?case by simp
next
  case (Cons b bs)
  have "unat b < 256" using unsigned_less [of b] by simp
  then have "unat b div 16 < 16" by simp
  then have "hex_digit (unat b div 16) \<in> set ''0123456789abcdef''"
       "hex_digit (unat b mod 16) \<in> set ''0123456789abcdef''"
    by (simp_all only: hex_digit_in mod_less_divisor zero_less_numeral)
  with Cons show ?case by (simp add: printf_02x_byte)
qed

lemma length_data_create_page_pattern:
  "length (data (fst (create_page_pattern h p buf a op))) = length (data p)"
  by (simp add: create_page_pattern_def Let_def length_fold_update)

lemma snd_create_page_pattern: "snd (create_page_pattern h p buf a op) = 0"
  by (simp add: create_page_pattern_def Let_def)

lemma length_auto_pattern: "length (data auto_pattern) = 256"
  by (simp add: auto_pattern_def)

lemma verify_tdi_pattern_eq:
  "verify_tdi_pattern h addr =
     (\<lparr>data = replicate 256 0xff,
       addr_and_op = htonl h (reverse_bits_32 addr) OR htonl h (ucast PAGE_OP_VERIFY_TDI)\<rparr>, 0)"
  by (simp add: verify_tdi_pattern_def create_page_pattern_None length_auto_pattern)
     (simp add: auto_pattern_def PAGE_OP_VERIFY_TDI_def PAGE_OP_VERIFY_TDO_def PAGE_OP_VERIFY_MASK_def)

lemma verify_tdo_pattern_eq:
  "length buf \<le> 256 \<Longrightarrow> verify_tdo_pattern h buf addr =
     (\<lparr>data = replicate (256 - length buf) 0xff @ rev (map reverse_bits_8 buf),
       addr_and_op = 0\<rparr>, 0)"
  by (simp add: verify_tdo_pattern_def verify_tdi_pattern_eq create_page_pattern_Some
      PAGE_OP_VERIFY_TDO_def htonl_zero)

lemma length_verify_tdo_pattern: "length (data (fst (verify_tdo_pattern h buf addr))) = 256"
  by (simp add: verify_tdo_pattern_def length_data_create_page_pattern verify_tdi_pattern_eq)

lemma verify_mask_pattern_eq:
  "verify_mask_pattern h buf addr =
     ((fst (verify_tdo_pattern h buf addr))\<lparr>data := replicate 256 0xff, addr_and_op := 0\<rparr>, 0)"
  by (simp add: verify_mask_pattern_def create_page_pattern_None length_verify_tdo_pattern
      PAGE_OP_VERIFY_MASK_def htonl_zero)

lemma pattern_bytes_mask:
  "pattern_bytes h (fst (verify_mask_pattern h buf addr)) = replicate 256 0xff @ [0, 0, 0, 0]"
  by (simp add: verify_mask_pattern_eq pattern_bytes_def object_bytes_def le_bytes_def be_bytes_def)


lemma object_bytes_zero: "object_bytes h 0 = [0, 0, 0, 0]"
  by (simp add: object_bytes_def le_bytes_def be_bytes_def)

lemma program_pattern_bytes:
  assumes "length page \<le> 256"
  shows "pattern_bytes h (fst (create_page_pattern h auto_pattern (Some page) addr PAGE_OP_PROGRAM_TDI))
         = replicate (256 - length page) 0xff @ rev (map reverse_bits_8 page)
           @ be_bytes (reverse_bits_32 addr OR 0x40)"
  using assms
  by (simp add: create_page_pattern_Some length_auto_pattern pattern_bytes_def htonl_or
      object_bytes_htonl)
     (simp add: PAGE_OP_PROGRAM_TDI_def PAGE_OP_VERIFY_TDO_def PAGE_OP_VERIFY_MASK_def)

lemma verify_tdi_pattern_bytes:
  "pattern_bytes h (fst (verify_tdi_pattern h addr))
     = replicate 256 0xff @ be_bytes (reverse_bits_32 addr OR 0xc0)"
  by (simp add: verify_tdi_pattern_eq pattern_bytes_def htonl_or object_bytes_htonl
      PAGE_OP_VERIFY_TDI_def)

lemma verify_tdo_pattern_bytes:
  "length page \<le> 256 \<Longrightarrow>
   pattern_bytes h (fst (verify_tdo_pattern h page addr))
     = replicate (256 - length page) 0xff @ rev (map reverse_bits_8 page) @ [0, 0, 0, 0]"
  by (simp add: verify_tdo_pattern_eq pattern_bytes_def object_bytes_zero)

lemma send_page_program_text:
  "send_page_program h page addr =
     (0, write_enable
         @ ''! Program page: 0x'' @ printf_0x 8 (unat addr) @ ''\<newline>''
         @ ''SDR 2080 TDI (''
         @ hexdump (pattern_bytes h (fst (create_page_pattern h auto_pattern (Some page) addr
                                           PAGE_OP_PROGRAM_TDI))) False
         @ '');\<newline>\<newline>''
         @ write_disable
         @ wait h 2)"
  using snd_create_page_pattern [of h auto_pattern "Some page" addr PAGE_OP_PROGRAM_TDI]
  by (simp add: send_page_program_def split_beta)

lemma send_page_verify_text:
  "send_page_verify h page addr =
     (0, ''! Verify page: 0x'' @ printf_0x 8 (unat addr) @ ''\<newline>''
         @ ''SDR 2080 TDI ('' @ hexdump (pattern_bytes h (fst (verify_tdi_pattern h addr))) True
         @ '')\<newline>''
         @ ''TDO ('' @ hexdump (pattern_bytes h (fst (verify_tdo_pattern h page addr))) False
         @ '')\<newline>''
         @ ''MASK ('' @ hexdump (pattern_bytes h (fst (verify_mask_pattern h page addr))) True
         @ '');\<newline>'')"
proof -
  have "snd (verify_tdi_pattern h addr) = 0" "snd (verify_tdo_pattern h page addr) = 0"
       "snd (verify_mask_pattern h page addr) = 0"
    by (simp_all add: verify_tdi_pattern_def verify_tdo_pattern_def verify_mask_pattern_def
        snd_create_page_pattern)
  then show ?thesis
    by (simp add: send_page_verify_def split_beta Let_def)
qed

text \<open>
  C7. Every dump of a 260-byte pattern is lowercase hex, two digits per byte, nothing in
  between, in storage order: the 256 data bytes, then the four bytes of \<^verbatim>\<open>addr_and_op\<close>.
  That holds for the dump of the program step and for the TDI, TDO and MASK dumps of the
  verify step, whatever the \<^verbatim>\<open>uppercase\<close> argument, for every page of at most 256 bytes
  and every address.
\<close>

theorem hex_rendering:
  assumes "length page \<le> 256"
  shows "hexdump bs up = spec_hex_rendering bs
       \<and> length (hexdump bs up) = 2 * length bs
       \<and> set (hexdump bs up) \<subseteq> set ''0123456789abcdef''
       \<and> send_page_program h page addr =
           (0, write_enable
               @ ''! Program page: 0x'' @ printf_0x 8 (unat addr) @ ''\<newline>''
               @ ''SDR 2080 TDI (''
               @ spec_hex_rendering (replicate (256 - length page) 0xff
                                      @ rev (map reverse_bits_8 page)
                                      @ be_bytes (reverse_bits_32 addr OR 0x40))
               @ '');\<newline>\<newline>''
               @ write_disable
               @ wait h 2)
       \<and> send_page_verify h page addr =
           (0, ''! Verify page: 0x'' @ printf_0x 8 (unat addr) @ ''\<newline>''
               @ ''SDR 2080 TDI (''
               @ spec_hex_rendering (replicate 256 0xff @ be_bytes (reverse_bits_32 addr OR 0xc0))
               @ '')\<newline>''
               @ ''TDO (''
               @ spec_hex_rendering (replicate (256 - length page) 0xff
                                      @ rev (map reverse_bits_8 page) @ [0, 0, 0, 0])
               @ '')\<newline>''
               @ ''MASK (''
               @ spec_hex_rendering (replicate 256 0xff @ [0, 0, 0, 0])
               @ '');\<newline>'')"
proof (intro conjI)
  show "hexdump bs up = spec_hex_rendering bs" by (rule hexdump_pairs)
  show "length (hexdump bs up) = 2 * length bs" by (rule length_hexdump)
  show "set (hexdump bs up) \<subseteq> set ''0123456789abcdef''" by (rule set_hexdump)
  show "send_page_program h page addr =
           (0, write_enable
               @ ''! Program page: 0x'' @ printf_0x 8 (unat addr) @ ''\<newline>''
               @ ''SDR 2080 TDI (''
               @ spec_hex_rendering (replicate (256 - length page) 0xff
                                      @ rev (map reverse_bits_8 page)
                                      @ be_bytes (reverse_bits_32 addr OR 0x40))
               @ '');\<newline>\<newline>''
               @ write_disable
               @ wait h 2)"
    by (simp only: send_page_program_text program_pattern_bytes [OF assms] hexdump_pairs)
  show "send_page_verify h page addr =
           (0, ''! Verify page: 0x'' @ printf_0x 8 (unat addr) @ ''\<newline>''
               @ ''SDR 2080 TDI (''
               @ spec_hex_rendering (replicate 256 0xff @ be_bytes (reverse_bits_32 addr OR 0xc0))
               @ '')\<newline>''
               @ ''TDO (''
               @ spec_hex_rendering (replicate (256 - length page) 0xff
                                      @ rev (map reverse_bits_8 page) @ [0, 0, 0, 0])
               @ '')\<newline>''
               @ ''MASK (''
               @ spec_hex_rendering (replicate 256 0xff @ [0, 0, 0, 0])
               @ '');\<newline>'')"
    by (simp only: send_page_verify_text verify_tdi_pattern_bytes
        verify_tdo_pattern_bytes [OF assms] pattern_bytes_mask hexdump_pairs)
qed

text \<open>
  C2, as the code has it. The \<^verbatim>\<open>VERIFY_MASK\<close> pattern of a verify step has all 256 data
  bytes equal to \<open>0xFF\<close> (every data bit is compared), and the four bytes of its
  \<^verbatim>\<open>addr_and_op\<close> are zero, whatever the page content and the address; the
  \<^verbatim>\<open>MASK\<close> dump that ends the verify text is the dump of those 260 bytes.
\<close>

theorem verify_mask_all_ones:
  "data (fst (verify_mask_pattern h buf addr)) = replicate 256 0xFF
   \<and> object_bytes h (addr_and_op (fst (verify_mask_pattern h buf addr))) = [0, 0, 0, 0]
   \<and> (\<exists>before. snd (send_page_verify h buf addr)
         = before @ ''MASK ('' @ hexdump (replicate 256 0xFF @ [0, 0, 0, 0]) True @ '');\<newline>'')"
proof (intro conjI)
  show "data (fst (verify_mask_pattern h buf addr)) = replicate 256 0xFF"
    by (simp add: verify_mask_pattern_eq)
  show "object_bytes h (addr_and_op (fst (verify_mask_pattern h buf addr))) = [0, 0, 0, 0]"
    by (simp add: verify_mask_pattern_eq object_bytes_zero)
  show "\<exists>before. snd (send_page_verify h buf addr)
         = before @ ''MASK ('' @ hexdump (replicate 256 0xFF @ [0, 0, 0, 0]) True @ '');\<newline>''"
    by (simp only: send_page_verify_text pattern_bytes_mask snd_conv append_assoc [symmetric])
       (rule exI, rule refl)
qed

text \<open>
  C2 as stated (the mask's data bytes are all zero) fails: for the one-byte page \<open>0x12\<close>
  at address \<open>0x800000\<close> the data bytes of the mask pattern are not 256 zeros.
\<close>

theorem verify_mask_not_zero:
  "data (fst (verify_mask_pattern x86_host [0x12] 0x800000)) \<noteq> replicate 256 0"
  by (simp add: verify_mask_pattern_eq)


theorem hex_rendering_witness:
  "length [0x12 :: u8] \<le> 256
   \<and> hexdump [0x12, 0xab, 0x0f] True = ''12ab0f''
   \<and> fst (send_page_program x86_host [0x12] 0x800000) = 0
   \<and> fst (send_page_verify x86_host [0x12] 0x800000) = 0"
proof -
  have a: "length [0x12 :: u8] \<le> 256" by simp
  from hex_rendering [OF a, of "[0x12, 0xab, 0x0f]" True x86_host "0x800000"] a
  show ?thesis by (simp add: spec_hex_rendering_def)
qed

section \<open>The page loop\<close>

lemma fst_send_page_program: "fst (send_page_program h page addr) = 0"
  by (simp add: send_page_program_text)

lemma fst_send_page_verify: "fst (send_page_verify h page addr) = 0"
  by (simp add: send_page_verify_text)

lemma verify_step_eq:
  "verify_step h mode page addr written s =
     (if mode AND MODE_VERIFY \<noteq> 0 \<or> (mode AND MODE_WRITE \<noteq> 0 \<and> written \<noteq> 0)
      then \<lparr>printed = printed s @ snd (send_page_verify h page addr), rc = Some 0, goto_out = False\<rparr>
      else s)"
  using fst_send_page_verify [of h page addr]
  by (simp add: verify_step_def split_beta)

lemma page_pass_eq:
  "page_pass h mode page addr rc0 =
     (if mode AND MODE_WRITE \<noteq> 0 \<and> (mode AND MODE_ERASE = 0 \<or> scan_all_ones page = 0)
      then \<lparr>printed = snd (send_page_program h page addr) @ snd (send_page_verify h page addr),
             rc = Some 0, goto_out = False\<rparr>
      else if mode AND MODE_VERIFY \<noteq> 0
      then \<lparr>printed = snd (send_page_verify h page addr), rc = Some 0, goto_out = False\<rparr>
      else \<lparr>printed = [], rc = rc0, goto_out = False\<rparr>)"
  using fst_send_page_program [of h page addr]
  by (simp add: page_pass_def verify_step_eq split_beta Let_def)

lemma goto_out_page_pass: "goto_out (page_pass h mode page addr rc0) = False"
  by (simp add: page_pass_eq)

lemma scan_all_ones_iff: "scan_all_ones bs \<noteq> 0 \<longleftrightarrow> (\<forall>b \<in> set bs. b = 0xFF)"
  by (induction bs) auto

lemma scan_all_ones_cases: "scan_all_ones bs = (if \<forall>b \<in> set bs. b = 0xFF then 1 else 0)"
  by (induction bs) auto


lemma page_loop_step:
  "page_loop h mode buf addr out rc0 =
     (if length buf \<le> 256
      then (page_pass h mode buf addr rc0)\<lparr>printed := out @ printed (page_pass h mode buf addr rc0)\<rparr>
      else page_loop h mode (drop 256 buf) (addr + 256)
             (out @ printed (page_pass h mode (take 256 buf) addr rc0))
             (rc (page_pass h mode (take 256 buf) addr rc0)))"
  by (subst page_loop.simps) (simp add: goto_out_page_pass Let_def)

lemma passes_step:
  "passes buf addr =
     (if length buf \<le> 256 then [(addr, buf)]
      else (addr, take 256 buf) # passes (drop 256 buf) (addr + 256))"
  by (subst passes.simps) (simp add: Let_def)

lemma page_loop_passes:
  "page_loop h mode buf addr out rc0 =
     foldl (\<lambda>s (a, page). (page_pass h mode page a (rc s))
                               \<lparr>printed := printed s @ printed (page_pass h mode page a (rc s))\<rparr>)
           \<lparr>printed = out, rc = rc0, goto_out = False\<rparr> (passes buf addr)"
proof (induction "length buf" arbitrary: buf addr out rc0 rule: less_induct)
  case less
  show ?case
  proof (cases "length buf \<le> 256")
    case True
    then show ?thesis
      by (subst page_loop_step, subst passes_step) simp
  next
    case False
    then have "length (drop 256 buf) < length buf" by simp
    from less [OF this] False show ?thesis
      by (subst page_loop_step, subst passes_step) (simp add: page_pass_eq)
  qed
qed


lemma ceil_div_small: "0 < (n::nat) \<Longrightarrow> n \<le> 256 \<Longrightarrow> (n + 255) div 256 = 1"
  by (simp add: le_div_geq)

lemma ceil_div_step: "256 < (n::nat) \<Longrightarrow> (n - 256 + 255) div 256 + 1 = (n + 255) div 256"
  by (simp add: le_div_geq)

lemma length_passes:
  "buf \<noteq> [] \<Longrightarrow> length (passes buf addr) = (length buf + 255) div 256"
proof (induction "length buf" arbitrary: buf addr rule: less_induct)
  case less
  show ?case
  proof (cases "length buf \<le> 256")
    case True
    with less.prems have "(length buf + 255) div 256 = 1"
      by (intro ceil_div_small) simp_all
    with True show ?thesis by (subst passes_step) simp
  next
    case False
    then have a: "length (drop 256 buf) < length buf" "drop 256 buf \<noteq> []" by simp_all
    have "(length buf - 256 + 255) div 256 + 1 = (length buf + 255) div 256"
      using False by (intro ceil_div_step) simp
    with less.hyps [OF a] False show ?thesis
      by (subst passes_step) simp
  qed
qed

lemma passes_nonempty: "passes buf addr \<noteq> []"
  by (subst passes_step) simp

lemma nth_passes:
  "k < length (passes buf addr) \<Longrightarrow>
   passes buf addr ! k = (addr + of_nat (256 * k), take 256 (drop (256 * k) buf))"
proof (induction k arbitrary: buf addr)
  case 0
  then show ?case by (subst passes_step) simp
next
  case (Suc k)
  show ?case
  proof (cases "length buf \<le> 256")
    case True
    with Suc.prems show ?thesis by (subst (asm) passes_step) simp
  next
    case False
    with Suc.prems have "k < length (passes (drop 256 buf) (addr + 256))"
      by (subst (asm) passes_step) simp
    from Suc.IH [OF this] False show ?thesis
      by (subst passes_step) (simp add: add.commute add.assoc)
  qed
qed

lemma concat_passes: "concat (map snd (passes buf addr)) = buf"
proof (induction "length buf" arbitrary: buf addr rule: less_induct)
  case less
  show ?case
  proof (cases "length buf \<le> 256")
    case True
    then show ?thesis by (subst passes_step) simp
  next
    case False
    then have "length (drop 256 buf) < length buf" by simp
    from less [OF this] False show ?thesis
      by (subst passes_step) simp
  qed
qed

lemma last_passes:
  "buf \<noteq> [] \<Longrightarrow>
   length (snd (last (passes buf addr)))
     = (if length buf mod 256 = 0 then 256 else length buf mod 256)"
proof (induction "length buf" arbitrary: buf addr rule: less_induct)
  case less
  show ?case
  proof (cases "length buf \<le> 256")
    case True
    with less.prems show ?thesis
      by (subst passes_step) (cases "length buf = 256"; simp)
  next
    case False
    then have a: "length (drop 256 buf) < length buf" "drop 256 buf \<noteq> []" by simp_all
    have "(length buf - 256) mod 256 = length buf mod 256"
      using False by (simp add: le_mod_geq)
    with less.hyps [OF a, of "addr + 256"] False show ?thesis
      by (subst passes_step) (simp add: passes_nonempty)
  qed
qed

text \<open>
  C5. For a non-empty buffer the page loop ends after exactly \<open>ceil(len / 256)\<close> passes
  (it is a total function, and it is the fold of the loop body over \<open>passes\<close>). Pass
  \<open>k\<close> works at address \<open>addr + 256 * k\<close> on the next \<open>min(remaining, 256)\<close> bytes,
  and the last pass has \<open>len mod 256\<close> bytes, or 256 when \<open>len\<close> is a multiple of 256.
\<close>

theorem page_loop_iterations:
  assumes "buf \<noteq> []"
  shows "page_loop h mode buf addr out rc0 =
           foldl (\<lambda>s (a, page). (page_pass h mode page a (rc s))
                               \<lparr>printed := printed s @ printed (page_pass h mode page a (rc s))\<rparr>)
                 \<lparr>printed = out, rc = rc0, goto_out = False\<rparr> (passes buf addr)
       \<and> length (passes buf addr) = (length buf + 255) div 256
       \<and> (\<forall>k < length (passes buf addr).
             passes buf addr ! k = (addr + of_nat (256 * k), take 256 (drop (256 * k) buf))
             \<and> length (snd (passes buf addr ! k)) = min (length buf - 256 * k) 256)
       \<and> length (snd (last (passes buf addr)))
           = (if length buf mod 256 = 0 then 256 else length buf mod 256)"
proof (intro conjI allI impI)
  show "page_loop h mode buf addr out rc0 =
           foldl (\<lambda>s (a, page). (page_pass h mode page a (rc s))
                               \<lparr>printed := printed s @ printed (page_pass h mode page a (rc s))\<rparr>)
                 \<lparr>printed = out, rc = rc0, goto_out = False\<rparr> (passes buf addr)"
    by (rule page_loop_passes)
  show "length (passes buf addr) = (length buf + 255) div 256"
    by (rule length_passes [OF assms])
  show "passes buf addr ! k = (addr + of_nat (256 * k), take 256 (drop (256 * k) buf))"
    if "k < length (passes buf addr)" for k
    by (rule nth_passes [OF that])
  show "length (snd (passes buf addr ! k)) = min (length buf - 256 * k) 256"
    if "k < length (passes buf addr)" for k
    by (simp add: nth_passes [OF that] min.commute)
  show "length (snd (last (passes buf addr)))
           = (if length buf mod 256 = 0 then 256 else length buf mod 256)"
    by (rule last_passes [OF assms])
qed

theorem page_loop_iterations_witness:
  "replicate 300 (0x12 :: u8) \<noteq> []
   \<and> length (passes (replicate 300 0x12) 0x800000) = 2
   \<and> passes (replicate 300 0x12) 0x800000 ! 1 = (0x800100, replicate 44 0x12)
   \<and> length (snd (last (passes (replicate 300 0x12) 0x800000))) = 44"
proof -
  have a: "replicate 300 (0x12 :: u8) \<noteq> []" by simp
  note t = page_loop_iterations [OF a, of x86_host 0 "0x800000" "[]" None]
  have l: "length (passes (replicate 300 0x12) 0x800000) = 2"
    using t [THEN conjunct2, THEN conjunct1] by simp
  have "(1::nat) < length (passes (replicate 300 0x12) 0x800000)" by (simp add: l)
  from t [THEN conjunct2, THEN conjunct2, THEN conjunct1, rule_format, OF this]
       t [THEN conjunct2, THEN conjunct2, THEN conjunct2] a l
  show ?thesis by simp
qed

section \<open>generate_svf\<close>

lemma send_page_program_nonempty: "snd (send_page_program h page addr) \<noteq> []"
  by (simp add: send_page_program_text write_enable_def)

lemma send_page_verify_nonempty: "snd (send_page_verify h page addr) \<noteq> []"
  by (simp add: send_page_verify_text)

lemma last_send_page_program: "last (snd (send_page_program h page addr)) = CHR 0x0A"
  by (simp add: send_page_program_text wait_def)

lemma last_send_page_verify: "last (snd (send_page_verify h page addr)) = CHR 0x0A"
  by (simp add: send_page_verify_text)

text \<open>The inputs for which a pass runs neither the program step nor the verify step.\<close>

lemma printed_page_pass_empty:
  "printed (page_pass h mode page addr rc0) = [] \<longleftrightarrow>
     mode AND MODE_VERIFY = 0
     \<and> (mode AND MODE_WRITE = 0 \<or> (mode AND MODE_ERASE \<noteq> 0 \<and> (\<forall>b \<in> set page. b = 0xFF)))"
  by (auto simp: page_pass_eq scan_all_ones_cases send_page_program_nonempty
      send_page_verify_nonempty)

lemma rc_page_pass:
  "rc (page_pass h mode page addr rc0) =
     (if mode AND MODE_VERIFY = 0
         \<and> (mode AND MODE_WRITE = 0 \<or> (mode AND MODE_ERASE \<noteq> 0 \<and> (\<forall>b \<in> set page. b = 0xFF)))
      then rc0 else Some 0)"
  by (auto simp: page_pass_eq scan_all_ones_cases)

lemma last_page_pass:
  "printed (page_pass h mode page addr rc0) \<noteq> [] \<Longrightarrow>
   last (printed (page_pass h mode page addr rc0)) = CHR 0x0A"
  by (auto simp: page_pass_eq send_page_verify_nonempty last_send_page_verify
      split: if_splits)

lemma all_ones_take_drop:
  "(\<forall>b \<in> set buf. b = (0xFF :: u8)) \<longleftrightarrow>
     (\<forall>b \<in> set (take n buf). b = 0xFF) \<and> (\<forall>b \<in> set (drop n buf). b = 0xFF)"
proof -
  have "set buf = set (take n buf) \<union> set (drop n buf)"
    by (metis append_take_drop_id set_append)
  then show ?thesis by auto
qed

lemma pass_update_printed:
  "s\<lparr>printed := p\<rparr> = \<lparr>printed = p, rc = rc s, goto_out = goto_out s\<rparr>" for s :: pass
  by (cases s) simp

lemma page_loop_result:
  "\<exists>t. page_loop h mode buf addr out rc0 =
         \<lparr>printed = out @ t,
          rc = (if mode AND MODE_VERIFY = 0
                   \<and> (mode AND MODE_WRITE = 0
                      \<or> (mode AND MODE_ERASE \<noteq> 0 \<and> (\<forall>b \<in> set buf. b = 0xFF)))
                then rc0 else Some 0),
          goto_out = False\<rparr>
       \<and> (t = [] \<longleftrightarrow> mode AND MODE_VERIFY = 0
                   \<and> (mode AND MODE_WRITE = 0
                      \<or> (mode AND MODE_ERASE \<noteq> 0 \<and> (\<forall>b \<in> set buf. b = 0xFF))))
       \<and> (t \<noteq> [] \<longrightarrow> last t = CHR 0x0A)"
proof (induction "length buf" arbitrary: buf addr out rc0 rule: less_induct)
  case less
  let ?quiet = "\<lambda>bs. mode AND MODE_VERIFY = 0
                   \<and> (mode AND MODE_WRITE = 0
                      \<or> (mode AND MODE_ERASE \<noteq> 0 \<and> (\<forall>b \<in> set bs. b = (0xFF::u8))))"
  show ?case
  proof (cases "length buf \<le> 256")
    case True
    let ?s = "page_pass h mode buf addr rc0"
    have "page_loop h mode buf addr out rc0 =
            \<lparr>printed = out @ printed ?s, rc = (if ?quiet buf then rc0 else Some 0), goto_out = False\<rparr>"
      using True
      by (subst page_loop_step) (simp add: pass_update_printed rc_page_pass goto_out_page_pass)
    moreover have "printed ?s = [] \<longleftrightarrow> ?quiet buf" by (rule printed_page_pass_empty)
    moreover have "printed ?s \<noteq> [] \<longrightarrow> last (printed ?s) = CHR 0x0A"
      using last_page_pass by blast
    ultimately show ?thesis by blast
  next
    case False
    let ?s = "page_pass h mode (take 256 buf) addr rc0"
    from False have "length (drop 256 buf) < length buf" by simp
    from less [OF this, of "addr + 256" "out @ printed ?s" "rc ?s"]
    obtain t where t: "page_loop h mode (drop 256 buf) (addr + 256) (out @ printed ?s) (rc ?s) =
         \<lparr>printed = (out @ printed ?s) @ t,
          rc = (if ?quiet (drop 256 buf) then rc ?s else Some 0), goto_out = False\<rparr>"
       "t = [] \<longleftrightarrow> ?quiet (drop 256 buf)" "t \<noteq> [] \<longrightarrow> last t = CHR 0x0A"
      by blast
    have q: "?quiet buf \<longleftrightarrow> ?quiet (take 256 buf) \<and> ?quiet (drop 256 buf)"
      using all_ones_take_drop [of buf 256] by blast
    have e: "printed ?s = [] \<longleftrightarrow> ?quiet (take 256 buf)" by (rule printed_page_pass_empty)
    have r: "rc ?s = (if ?quiet (take 256 buf) then rc0 else Some 0)" by (rule rc_page_pass)
    have "page_loop h mode buf addr out rc0 =
            \<lparr>printed = out @ (printed ?s @ t),
             rc = (if ?quiet buf then rc0 else Some 0), goto_out = False\<rparr>"
      using False t(1) q r by (subst page_loop_step) auto
    moreover have "printed ?s @ t = [] \<longleftrightarrow> ?quiet buf"
      using e t(2) q by auto
    moreover have "printed ?s @ t \<noteq> [] \<longrightarrow> last (printed ?s @ t) = CHR 0x0A"
      using t(3) last_page_pass [of h mode "take 256 buf" addr rc0]
      by (auto simp: last_append)
    ultimately show ?thesis by blast
  qed
qed


lemma erase_time_chip_size: "erase_time chip_size = Inr 250000"
  by (simp add: erase_time_def chip_size_def SIZE_4MB_def SIZE_8MB_def SIZE_16MB_def)

lemma generate_svf_result:
  "\<exists>t. generate_svf h buf addr mode =
         Returned (trst 0 @ set_frequency @ write_enable @ clear_software_protect
                   @ write_disable @ wait h 100 @ check_no_software_protect
                   @ (if mode AND MODE_ERASE \<noteq> 0
                      then write_enable @ bulk_erase @ write_disable @ wait h 250000
                           @ check_status
                      else [])
                   @ t @ trst 1)
                  (if mode AND MODE_VERIFY = 0
                      \<and> (mode AND MODE_WRITE = 0
                         \<or> (mode AND MODE_ERASE \<noteq> 0 \<and> (\<forall>b \<in> set buf. b = 0xFF)))
                   then None else Some 0)
       \<and> (t = [] \<longleftrightarrow> mode AND MODE_VERIFY = 0
                   \<and> (mode AND MODE_WRITE = 0
                      \<or> (mode AND MODE_ERASE \<noteq> 0 \<and> (\<forall>b \<in> set buf. b = 0xFF))))
       \<and> (t \<noteq> [] \<longrightarrow> last t = CHR 0x0A)"
proof -
  let ?out1 = "trst 0 @ set_frequency @ write_enable @ clear_software_protect
                   @ write_disable @ wait h 100 @ check_no_software_protect
                   @ (if mode AND MODE_ERASE \<noteq> 0
                      then write_enable @ bulk_erase @ write_disable @ wait h 250000
                           @ check_status
                      else [])"
  let ?quiet = "mode AND MODE_VERIFY = 0
                      \<and> (mode AND MODE_WRITE = 0
                         \<or> (mode AND MODE_ERASE \<noteq> 0 \<and> (\<forall>b \<in> set buf. b = (0xFF::u8))))"
  from page_loop_result [of h mode buf addr ?out1 None]
  obtain t where t: "page_loop h mode buf addr ?out1 None =
         \<lparr>printed = ?out1 @ t, rc = (if ?quiet then None else Some 0), goto_out = False\<rparr>"
       "t = [] \<longleftrightarrow> ?quiet" "t \<noteq> [] \<longrightarrow> last t = CHR 0x0A"
    by blast
  have "generate_svf h buf addr mode =
          Returned (?out1 @ t @ trst 1) (if ?quiet then None else Some 0)"
  proof (cases "mode AND MODE_ERASE \<noteq> 0")
    case True
    with t(1) show ?thesis
      by (simp add: generate_svf_def erase_time_chip_size Let_def)
  next
    case False
    with t(1) show ?thesis
      by (simp add: generate_svf_def Let_def)
  qed
  with t(2,3) show ?thesis by (intro exI [of _ t]) simp
qed

text \<open>
  C1, as the code has it. \<^verbatim>\<open>generate_svf\<close> calls \<^verbatim>\<open>trst(0)\<close> first and \<^verbatim>\<open>trst(1)\<close>
  last, so on every run the first line printed is \<open>TRST OFF;\<close> and the last line
  printed is \<open>TRST ON;\<close>, followed by an empty line. No page step can fail, so the
  function always returns and always prints that last line.
\<close>

theorem reset_lines:
  "\<exists>middle r. generate_svf h buf addr mode =
                Returned (''TRST OFF;\<newline>'' @ middle @ ''\<newline>TRST ON;\<newline>\<newline>'') r"
proof -
  let ?erase = "write_enable @ bulk_erase @ write_disable @ wait h 250000
                  @ ''! Check status\<newline>'' @ ''SDR 16 TDI(ffa0) TDO(0000) MASK(8000);\<newline>''"
  let ?m0 = "''\<newline>'' @ set_frequency @ write_enable @ clear_software_protect
               @ write_disable @ wait h 100
               @ (if mode AND MODE_ERASE \<noteq> 0
                  then check_no_software_protect @ ?erase
                  else ''! Check no software protect\<newline>''
                       @ ''SDR 16 TDI(ffa0) TDO(c6ff) MASK(3900);\<newline>'')"
  from generate_svf_result [of h buf addr mode]
  obtain t r where t: "generate_svf h buf addr mode =
         Returned (trst 0 @ set_frequency @ write_enable @ clear_software_protect
                   @ write_disable @ wait h 100 @ check_no_software_protect
                   @ (if mode AND MODE_ERASE \<noteq> 0
                      then write_enable @ bulk_erase @ write_disable @ wait h 250000
                           @ check_status
                      else [])
                   @ t @ trst 1) r"
     and nl: "t \<noteq> [] \<longrightarrow> last t = CHR 0x0A"
    by blast
  have pre: "trst 0 @ set_frequency @ write_enable @ clear_software_protect
                   @ write_disable @ wait h 100 @ check_no_software_protect
                   @ (if mode AND MODE_ERASE \<noteq> 0
                      then write_enable @ bulk_erase @ write_disable @ wait h 250000
                           @ check_status
                      else [])
             = ''TRST OFF;\<newline>'' @ ?m0 @ ''\<newline>''"
    by (simp add: trst_def check_status_def check_no_software_protect_def)
  have post: "trst 1 = ''TRST ON;\<newline>\<newline>''"
    by (simp add: trst_def)
  show ?thesis
  proof (cases "t = []")
    case True
    have "generate_svf h buf addr mode =
            Returned (''TRST OFF;\<newline>'' @ ?m0 @ ''\<newline>TRST ON;\<newline>\<newline>'') r"
      unfolding t using pre by (simp add: True post)
    then show ?thesis by blast
  next
    case False
    with nl have "t = butlast t @ ''\<newline>''"
      by (metis append_butlast_last_id)
    then obtain t' where t': "t = t' @ ''\<newline>''" ..
    have "generate_svf h buf addr mode =
            Returned (''TRST OFF;\<newline>'' @ (?m0 @ ''\<newline>'' @ t')
                      @ ''\<newline>TRST ON;\<newline>\<newline>'') r"
      unfolding t using pre by (simp add: t' post)
    then show ?thesis by blast
  qed
qed


text \<open>
  C1 as stated (first line \<open>TRST ON;\<close>, last line \<open>TRST OFF;\<close>) fails: for the one-byte
  buffer \<open>0x12\<close> at \<open>0x800000\<close> in mode \<open>ERASE|WRITE\<close> the text does not begin with the
  line \<open>TRST ON;\<close> and does not end with the line \<open>TRST OFF;\<close> and an empty line.
\<close>

theorem swapped_reset_order_fails:
  "take 9 (out_text (generate_svf x86_host [0x12] 0x800000 (MODE_ERASE OR MODE_WRITE)))
     \<noteq> ''TRST ON;\<newline>''
   \<and> take 11 (rev (out_text (generate_svf x86_host [0x12] 0x800000 (MODE_ERASE OR MODE_WRITE))))
     \<noteq> rev ''TRST OFF;\<newline>\<newline>''"
proof -
  from generate_svf_result [of x86_host "[0x12]" "0x800000" "MODE_ERASE OR MODE_WRITE"]
  obtain t r where
    "generate_svf x86_host [0x12] 0x800000 (MODE_ERASE OR MODE_WRITE) =
       Returned (trst 0 @ set_frequency @ write_enable @ clear_software_protect
                 @ write_disable @ wait x86_host 100 @ check_no_software_protect
                 @ (if (MODE_ERASE OR MODE_WRITE) AND MODE_ERASE \<noteq> 0
                    then write_enable @ bulk_erase @ write_disable @ wait x86_host 250000
                         @ check_status
                    else [])
                 @ t @ trst 1) r"
    by blast
  then show ?thesis by (simp add: trst_def)
qed

lemmas mode_defs = MODE_ERASE_def MODE_WRITE_def MODE_VERIFY_def

text \<open>What the two page steps print for a page of at most 256 bytes, all \<open>0xFF\<close>.\<close>

lemma reverse_bits_8_ff: "reverse_bits_8 0xFF = 0xFF"
  by code_simp

lemma all_ones_data:
  assumes "\<forall>b \<in> set page. b = 0xFF" and "length page \<le> 256"
  shows "replicate (256 - length page) 0xff @ rev (map reverse_bits_8 page) = replicate 256 0xff"
proof -
  from assms(1) have "page = replicate (length page) 0xFF"
    by (simp add: replicate_length_same)
  then have "rev (map reverse_bits_8 page) = replicate (length page) 0xFF"
    by (metis map_replicate rev_replicate reverse_bits_8_ff)
  moreover have "256 - length page + length page = 256"
    using assms(2) by simp
  ultimately show ?thesis
    by (metis replicate_add)
qed

lemma program_text_all_ones:
  assumes "\<forall>b \<in> set page. b = 0xFF" and "length page \<le> 256"
  shows "snd (send_page_program h page addr) =
           write_enable
           @ ''! Program page: 0x'' @ printf_0x 8 (unat addr) @ ''\<newline>''
           @ ''SDR 2080 TDI (''
           @ spec_hex_rendering (replicate 256 0xff @ be_bytes (reverse_bits_32 addr OR 0x40))
           @ '');\<newline>\<newline>''
           @ write_disable
           @ wait h 2"
  by (simp only: send_page_program_text program_pattern_bytes [OF assms(2)] hexdump_pairs
      snd_conv append_assoc [symmetric] all_ones_data [OF assms])

lemma verify_text_all_ones:
  assumes "\<forall>b \<in> set page. b = 0xFF" and "length page \<le> 256"
  shows "snd (send_page_verify h page addr) =
           ''! Verify page: 0x'' @ printf_0x 8 (unat addr) @ ''\<newline>''
           @ ''SDR 2080 TDI (''
           @ spec_hex_rendering (replicate 256 0xff @ be_bytes (reverse_bits_32 addr OR 0xc0))
           @ '')\<newline>''
           @ ''TDO ('' @ spec_hex_rendering (replicate 256 0xff @ [0, 0, 0, 0]) @ '')\<newline>''
           @ ''MASK ('' @ spec_hex_rendering (replicate 256 0xff @ [0, 0, 0, 0]) @ '');\<newline>''"
  by (simp only: send_page_verify_text verify_tdi_pattern_bytes
      verify_tdo_pattern_bytes [OF assms(2)] pattern_bytes_mask hexdump_pairs
      snd_conv append_assoc [symmetric] all_ones_data [OF assms])

lemma spec_hex_rendering_ff:
  "spec_hex_rendering (replicate n 0xff @ bs) = replicate (2 * n) (CHR ''f'') @ spec_hex_rendering bs"
  by (induction n) (simp_all add: spec_hex_rendering_def)

lemma be_bytes_examples:
  "be_bytes (reverse_bits_32 0x800000 OR 0x40) = [0, 0, 1, 0x40]"
  "be_bytes (reverse_bits_32 0x800000 OR 0xc0) = [0, 0, 1, 0xc0]"
  by code_simp+

lemma spec_hex_rendering_examples:
  "spec_hex_rendering [0, 0, 1, 0x40] = ''00000140''"
  "spec_hex_rendering [0, 0, 1, 0xc0] = ''000001c0''"
  "spec_hex_rendering [0, 0, 0, 0] = ''00000000''"
  by (simp_all add: spec_hex_rendering_def)

lemma replicate_two: "replicate 2 x = [x, x]"
  by (simp add: numeral_2_eq_2)

lemma printf_0x_example: "printf_0x 8 8388608 = ''00800000''"
  by (simp add: printf_0x_def printf_x.simps hex_digit_def replicate_two)

lemma wait_x86_host:
  "wait x86_host 2 = ''RUNTEST IDLE 0.002 SEC ENDSTATE IDLE;\<newline>\<newline>''"
  "wait x86_host 100 = ''RUNTEST IDLE 0.1 SEC ENDSTATE IDLE;\<newline>\<newline>''"
  by (simp_all add: wait_def x86_host_def glibc_G_def)

text \<open>
  C4. For a page whose bytes are all \<open>0xFF\<close>, a pass of the loop in mode \<open>ERASE|WRITE\<close>
  prints nothing (no program command, and \<^verbatim>\<open>rc\<close> is left as it was). In mode
  \<open>ERASE|WRITE|VERIFY\<close> it prints exactly the verify block of that page: the comment
  line and the \<open>SDR 2080\<close> command with its TDI, TDO and MASK dumps, and no program
  command. In any mode with \<open>WRITE\<close> set and \<open>ERASE\<close> clear it prints the program block
  (write enable, the comment line, the \<open>SDR 2080 TDI\<close> command, write disable, the wait)
  followed by that verify block. The page has at most 256 bytes, as every page of the
  loop has.
\<close>

theorem write_skip:
  assumes "\<forall>b \<in> set page. b = 0xFF"
  shows "page_pass h (MODE_ERASE OR MODE_WRITE) page addr rc0
           = \<lparr>printed = [], rc = rc0, goto_out = False\<rparr>
       \<and> (length page \<le> 256 \<longrightarrow>
            page_pass h (MODE_ERASE OR MODE_WRITE OR MODE_VERIFY) page addr rc0
              = \<lparr>printed =
                   ''! Verify page: 0x'' @ printf_0x 8 (unat addr) @ ''\<newline>''
                   @ ''SDR 2080 TDI (''
                   @ spec_hex_rendering (replicate 256 0xff
                                         @ be_bytes (reverse_bits_32 addr OR 0xc0))
                   @ '')\<newline>''
                   @ ''TDO ('' @ spec_hex_rendering (replicate 256 0xff @ [0, 0, 0, 0])
                   @ '')\<newline>''
                   @ ''MASK ('' @ spec_hex_rendering (replicate 256 0xff @ [0, 0, 0, 0])
                   @ '');\<newline>'',
                 rc = Some 0, goto_out = False\<rparr>)
       \<and> (length page \<le> 256 \<and> mode AND MODE_WRITE \<noteq> 0 \<and> mode AND MODE_ERASE = 0 \<longrightarrow>
            page_pass h mode page addr rc0
              = \<lparr>printed =
                   (write_enable
                    @ ''! Program page: 0x'' @ printf_0x 8 (unat addr) @ ''\<newline>''
                    @ ''SDR 2080 TDI (''
                    @ spec_hex_rendering (replicate 256 0xff
                                          @ be_bytes (reverse_bits_32 addr OR 0x40))
                    @ '');\<newline>\<newline>''
                    @ write_disable
                    @ wait h 2)
                   @ ''! Verify page: 0x'' @ printf_0x 8 (unat addr) @ ''\<newline>''
                   @ ''SDR 2080 TDI (''
                   @ spec_hex_rendering (replicate 256 0xff
                                         @ be_bytes (reverse_bits_32 addr OR 0xc0))
                   @ '')\<newline>''
                   @ ''TDO ('' @ spec_hex_rendering (replicate 256 0xff @ [0, 0, 0, 0])
                   @ '')\<newline>''
                   @ ''MASK ('' @ spec_hex_rendering (replicate 256 0xff @ [0, 0, 0, 0])
                   @ '');\<newline>'',
                 rc = Some 0, goto_out = False\<rparr>)"
proof (intro conjI impI)
  show "page_pass h (MODE_ERASE OR MODE_WRITE) page addr rc0
           = \<lparr>printed = [], rc = rc0, goto_out = False\<rparr>"
    using assms by (simp add: page_pass_eq scan_all_ones_cases mode_defs)
next
  assume len: "length page \<le> 256"
  have "page_pass h (MODE_ERASE OR MODE_WRITE OR MODE_VERIFY) page addr rc0
          = \<lparr>printed = snd (send_page_verify h page addr), rc = Some 0, goto_out = False\<rparr>"
    using assms by (simp add: page_pass_eq scan_all_ones_cases mode_defs)
  then show "page_pass h (MODE_ERASE OR MODE_WRITE OR MODE_VERIFY) page addr rc0
              = \<lparr>printed =
                   ''! Verify page: 0x'' @ printf_0x 8 (unat addr) @ ''\<newline>''
                   @ ''SDR 2080 TDI (''
                   @ spec_hex_rendering (replicate 256 0xff
                                         @ be_bytes (reverse_bits_32 addr OR 0xc0))
                   @ '')\<newline>''
                   @ ''TDO ('' @ spec_hex_rendering (replicate 256 0xff @ [0, 0, 0, 0])
                   @ '')\<newline>''
                   @ ''MASK ('' @ spec_hex_rendering (replicate 256 0xff @ [0, 0, 0, 0])
                   @ '');\<newline>'',
                 rc = Some 0, goto_out = False\<rparr>"
    by (simp only: verify_text_all_ones [OF assms len])
next
  assume a: "length page \<le> 256 \<and> mode AND MODE_WRITE \<noteq> 0 \<and> mode AND MODE_ERASE = 0"
  then have len: "length page \<le> 256" by simp
  have "page_pass h mode page addr rc0
          = \<lparr>printed = snd (send_page_program h page addr) @ snd (send_page_verify h page addr),
             rc = Some 0, goto_out = False\<rparr>"
    using a by (simp add: page_pass_eq)
  then show "page_pass h mode page addr rc0
              = \<lparr>printed =
                   (write_enable
                    @ ''! Program page: 0x'' @ printf_0x 8 (unat addr) @ ''\<newline>''
                    @ ''SDR 2080 TDI (''
                    @ spec_hex_rendering (replicate 256 0xff
                                          @ be_bytes (reverse_bits_32 addr OR 0x40))
                    @ '');\<newline>\<newline>''
                    @ write_disable
                    @ wait h 2)
                   @ ''! Verify page: 0x'' @ printf_0x 8 (unat addr) @ ''\<newline>''
                   @ ''SDR 2080 TDI (''
                   @ spec_hex_rendering (replicate 256 0xff
                                         @ be_bytes (reverse_bits_32 addr OR 0xc0))
                   @ '')\<newline>''
                   @ ''TDO ('' @ spec_hex_rendering (replicate 256 0xff @ [0, 0, 0, 0])
                   @ '')\<newline>''
                   @ ''MASK ('' @ spec_hex_rendering (replicate 256 0xff @ [0, 0, 0, 0])
                   @ '');\<newline>'',
                 rc = Some 0, goto_out = False\<rparr>"
    by (simp only: program_text_all_ones [OF assms len] verify_text_all_ones [OF assms len])
qed

theorem write_skip_witness:
  "set (replicate 256 (0xFF :: u8)) = {0xFF} \<and> length (replicate 256 (0xFF :: u8)) \<le> 256
   \<and> printed (page_pass x86_host (MODE_ERASE OR MODE_WRITE) (replicate 256 0xFF) 0x800000 None) = []
   \<and> printed (page_pass x86_host (MODE_ERASE OR MODE_WRITE OR MODE_VERIFY) (replicate 256 0xFF)
                 0x800000 None)
       = ''! Verify page: 0x00800000\<newline>''
         @ ''SDR 2080 TDI ('' @ replicate 512 (CHR ''f'') @ ''000001c0)\<newline>''
         @ ''TDO ('' @ replicate 512 (CHR ''f'') @ ''00000000)\<newline>''
         @ ''MASK ('' @ replicate 512 (CHR ''f'') @ ''00000000);\<newline>''
   \<and> MODE_WRITE AND MODE_WRITE \<noteq> 0 \<and> MODE_WRITE AND MODE_ERASE = 0
   \<and> printed (page_pass x86_host MODE_WRITE (replicate 256 0xFF) 0x800000 None)
       = ''! Write enable\<newline>SDR 8 TDI(60);\<newline>\<newline>''
         @ ''! Program page: 0x00800000\<newline>''
         @ ''SDR 2080 TDI ('' @ replicate 512 (CHR ''f'') @ ''00000140);\<newline>\<newline>''
         @ ''! Write disable\<newline>SDR 8 TDI(20);\<newline>\<newline>''
         @ ''RUNTEST IDLE 0.002 SEC ENDSTATE IDLE;\<newline>\<newline>''
         @ ''! Verify page: 0x00800000\<newline>''
         @ ''SDR 2080 TDI ('' @ replicate 512 (CHR ''f'') @ ''000001c0)\<newline>''
         @ ''TDO ('' @ replicate 512 (CHR ''f'') @ ''00000000)\<newline>''
         @ ''MASK ('' @ replicate 512 (CHR ''f'') @ ''00000000);\<newline>''"
proof -
  have a: "\<forall>b \<in> set (replicate 256 (0xFF :: u8)). b = 0xFF" by simp
  from write_skip [OF a, of x86_host "0x800000" None MODE_WRITE] a
  show ?thesis
    by (simp add: mode_defs spec_hex_rendering_ff be_bytes_examples
        spec_hex_rendering_examples printf_0x_example wait_x86_host
        write_enable_def write_disable_def)
qed

lemma generate_svf_empty:
  "generate_svf h [] addr mode =
     Returned (trst 0 @ set_frequency @ write_enable @ clear_software_protect
               @ write_disable @ wait h 100 @ check_no_software_protect
               @ (if mode AND MODE_ERASE \<noteq> 0
                  then write_enable @ bulk_erase @ write_disable @ wait h 250000 @ check_status
                  else [])
               @ printed (page_pass h mode [] addr None) @ trst 1)
              (rc (page_pass h mode [] addr None))"
  by (simp add: generate_svf_def erase_time_chip_size Let_def page_loop_step [of _ _ "[]"]
      goto_out_page_pass)

text \<open>
  C9. Called with an empty buffer, the loop still makes exactly one pass, on the empty
  page at the base address, and the text of that pass stands between the prologue and
  \<open>TRST ON;\<close>. With \<open>WRITE\<close> set and \<open>ERASE\<close> clear the pass prints a program block whose
  256 data bytes are all \<open>0xFF\<close>, then the verify block that follows a write; with
  \<open>WRITE\<close> and \<open>ERASE\<close> set and \<open>VERIFY\<close> clear it prints nothing, the empty page
  counting as all ones; with \<open>VERIFY\<close> set and no write it prints the verify block of
  the empty page.
\<close>

theorem empty_buffer_one_pass:
  "passes [] addr = [(addr, [])]
   \<and> page_loop h mode [] addr out rc0
       = (page_pass h mode [] addr rc0)\<lparr>printed := out @ printed (page_pass h mode [] addr rc0)\<rparr>
   \<and> generate_svf h [] addr mode =
       Returned (trst 0 @ set_frequency @ write_enable @ clear_software_protect
                 @ write_disable @ wait h 100 @ check_no_software_protect
                 @ (if mode AND MODE_ERASE \<noteq> 0
                    then write_enable @ bulk_erase @ write_disable @ wait h 250000
                         @ check_status
                    else [])
                 @ printed (page_pass h mode [] addr None) @ trst 1)
                (rc (page_pass h mode [] addr None))
   \<and> (mode AND MODE_WRITE \<noteq> 0 \<and> mode AND MODE_ERASE = 0 \<longrightarrow>
        page_pass h mode [] addr rc0
          = \<lparr>printed =
               (write_enable
                @ ''! Program page: 0x'' @ printf_0x 8 (unat addr) @ ''\<newline>''
                @ ''SDR 2080 TDI (''
                @ spec_hex_rendering (replicate 256 0xff
                                      @ be_bytes (reverse_bits_32 addr OR 0x40))
                @ '');\<newline>\<newline>''
                @ write_disable
                @ wait h 2)
               @ ''! Verify page: 0x'' @ printf_0x 8 (unat addr) @ ''\<newline>''
               @ ''SDR 2080 TDI (''
               @ spec_hex_rendering (replicate 256 0xff
                                     @ be_bytes (reverse_bits_32 addr OR 0xc0))
               @ '')\<newline>''
               @ ''TDO ('' @ spec_hex_rendering (replicate 256 0xff @ [0, 0, 0, 0])
               @ '')\<newline>''
               @ ''MASK ('' @ spec_hex_rendering (replicate 256 0xff @ [0, 0, 0, 0])
               @ '');\<newline>'',
             rc = Some 0, goto_out = False\<rparr>)
   \<and> (mode AND MODE_WRITE \<noteq> 0 \<and> mode AND MODE_ERASE \<noteq> 0 \<and> mode AND MODE_VERIFY = 0 \<longrightarrow>
        page_pass h mode [] addr rc0 = \<lparr>printed = [], rc = rc0, goto_out = False\<rparr>)
   \<and> (mode AND MODE_VERIFY \<noteq> 0 \<and> (mode AND MODE_WRITE = 0 \<or> mode AND MODE_ERASE \<noteq> 0) \<longrightarrow>
        page_pass h mode [] addr rc0
          = \<lparr>printed =
               ''! Verify page: 0x'' @ printf_0x 8 (unat addr) @ ''\<newline>''
               @ ''SDR 2080 TDI (''
               @ spec_hex_rendering (replicate 256 0xff
                                     @ be_bytes (reverse_bits_32 addr OR 0xc0))
               @ '')\<newline>''
               @ ''TDO ('' @ spec_hex_rendering (replicate 256 0xff @ [0, 0, 0, 0])
               @ '')\<newline>''
               @ ''MASK ('' @ spec_hex_rendering (replicate 256 0xff @ [0, 0, 0, 0])
               @ '');\<newline>'',
             rc = Some 0, goto_out = False\<rparr>)"
proof (intro conjI impI)
  have e: "\<forall>b \<in> set ([] :: u8 list). b = 0xFF" "length ([] :: u8 list) \<le> 256"
    by simp_all
  note prog = program_text_all_ones [OF e, of h addr]
  note ver = verify_text_all_ones [OF e, of h addr]
  show "passes [] addr = [(addr, [])]"
    by (subst passes_step) simp
  show "page_loop h mode [] addr out rc0
       = (page_pass h mode [] addr rc0)\<lparr>printed := out @ printed (page_pass h mode [] addr rc0)\<rparr>"
    by (subst page_loop_step) simp
  show "generate_svf h [] addr mode =
       Returned (trst 0 @ set_frequency @ write_enable @ clear_software_protect
                 @ write_disable @ wait h 100 @ check_no_software_protect
                 @ (if mode AND MODE_ERASE \<noteq> 0
                    then write_enable @ bulk_erase @ write_disable @ wait h 250000
                         @ check_status
                    else [])
                 @ printed (page_pass h mode [] addr None) @ trst 1)
                (rc (page_pass h mode [] addr None))"
    by (rule generate_svf_empty)
  {
    assume a: "mode AND MODE_WRITE \<noteq> 0 \<and> mode AND MODE_ERASE = 0"
    then have "page_pass h mode [] addr rc0
          = \<lparr>printed = snd (send_page_program h [] addr) @ snd (send_page_verify h [] addr),
             rc = Some 0, goto_out = False\<rparr>"
      by (simp add: page_pass_eq)
    then show "page_pass h mode [] addr rc0
          = \<lparr>printed =
               (write_enable
                @ ''! Program page: 0x'' @ printf_0x 8 (unat addr) @ ''\<newline>''
                @ ''SDR 2080 TDI (''
                @ spec_hex_rendering (replicate 256 0xff
                                      @ be_bytes (reverse_bits_32 addr OR 0x40))
                @ '');\<newline>\<newline>''
                @ write_disable
                @ wait h 2)
               @ ''! Verify page: 0x'' @ printf_0x 8 (unat addr) @ ''\<newline>''
               @ ''SDR 2080 TDI (''
               @ spec_hex_rendering (replicate 256 0xff
                                     @ be_bytes (reverse_bits_32 addr OR 0xc0))
               @ '')\<newline>''
               @ ''TDO ('' @ spec_hex_rendering (replicate 256 0xff @ [0, 0, 0, 0])
               @ '')\<newline>''
               @ ''MASK ('' @ spec_hex_rendering (replicate 256 0xff @ [0, 0, 0, 0])
               @ '');\<newline>'',
             rc = Some 0, goto_out = False\<rparr>"
      by (simp only: prog ver)
  }
  {
    assume "mode AND MODE_WRITE \<noteq> 0 \<and> mode AND MODE_ERASE \<noteq> 0 \<and> mode AND MODE_VERIFY = 0"
    then show "page_pass h mode [] addr rc0 = \<lparr>printed = [], rc = rc0, goto_out = False\<rparr>"
      by (simp add: page_pass_eq)
  }
  {
    assume "mode AND MODE_VERIFY \<noteq> 0 \<and> (mode AND MODE_WRITE = 0 \<or> mode AND MODE_ERASE \<noteq> 0)"
    then have "page_pass h mode [] addr rc0
          = \<lparr>printed = snd (send_page_verify h [] addr), rc = Some 0, goto_out = False\<rparr>"
      by (auto simp: page_pass_eq)
    then show "page_pass h mode [] addr rc0
          = \<lparr>printed =
               ''! Verify page: 0x'' @ printf_0x 8 (unat addr) @ ''\<newline>''
               @ ''SDR 2080 TDI (''
               @ spec_hex_rendering (replicate 256 0xff
                                     @ be_bytes (reverse_bits_32 addr OR 0xc0))
               @ '')\<newline>''
               @ ''TDO ('' @ spec_hex_rendering (replicate 256 0xff @ [0, 0, 0, 0])
               @ '')\<newline>''
               @ ''MASK ('' @ spec_hex_rendering (replicate 256 0xff @ [0, 0, 0, 0])
               @ '');\<newline>'',
             rc = Some 0, goto_out = False\<rparr>"
      by (simp only: ver)
  }
qed

theorem empty_buffer_one_pass_witness:
  "MODE_WRITE AND MODE_WRITE \<noteq> 0 \<and> MODE_WRITE AND MODE_ERASE = 0
   \<and> printed (page_pass x86_host MODE_WRITE [] 0x800000 None)
       = ''! Write enable\<newline>SDR 8 TDI(60);\<newline>\<newline>''
         @ ''! Program page: 0x00800000\<newline>''
         @ ''SDR 2080 TDI ('' @ replicate 512 (CHR ''f'') @ ''00000140);\<newline>\<newline>''
         @ ''! Write disable\<newline>SDR 8 TDI(20);\<newline>\<newline>''
         @ ''RUNTEST IDLE 0.002 SEC ENDSTATE IDLE;\<newline>\<newline>''
         @ ''! Verify page: 0x00800000\<newline>''
         @ ''SDR 2080 TDI ('' @ replicate 512 (CHR ''f'') @ ''000001c0)\<newline>''
         @ ''TDO ('' @ replicate 512 (CHR ''f'') @ ''00000000)\<newline>''
         @ ''MASK ('' @ replicate 512 (CHR ''f'') @ ''00000000);\<newline>''
   \<and> (MODE_ERASE OR MODE_WRITE) AND MODE_WRITE \<noteq> 0
   \<and> (MODE_ERASE OR MODE_WRITE) AND MODE_ERASE \<noteq> 0
   \<and> (MODE_ERASE OR MODE_WRITE) AND MODE_VERIFY = 0
   \<and> printed (page_pass x86_host (MODE_ERASE OR MODE_WRITE) [] 0x800000 None) = []
   \<and> MODE_VERIFY AND MODE_VERIFY \<noteq> 0 \<and> MODE_VERIFY AND MODE_WRITE = 0
   \<and> generate_svf x86_host [] 0x800000 MODE_VERIFY
       = Returned
          (''TRST OFF;\<newline>\<newline>''
           @ ''FREQUENCY 5.00e+006 HZ;\<newline>\<newline>''
           @ ''! Write enable\<newline>SDR 8 TDI(60);\<newline>\<newline>''
           @ ''! Clear software protect\<newline>SDR 16 TDI(0080);\<newline>\<newline>''
           @ ''! Write disable\<newline>SDR 8 TDI(20);\<newline>\<newline>''
           @ ''RUNTEST IDLE 0.1 SEC ENDSTATE IDLE;\<newline>\<newline>''
           @ ''! Check no software protect\<newline>''
           @ ''SDR 16 TDI(ffa0) TDO(c6ff) MASK(3900);\<newline>\<newline>''
           @ ''! Verify page: 0x00800000\<newline>''
           @ ''SDR 2080 TDI ('' @ replicate 512 (CHR ''f'') @ ''000001c0)\<newline>''
           @ ''TDO ('' @ replicate 512 (CHR ''f'') @ ''00000000)\<newline>''
           @ ''MASK ('' @ replicate 512 (CHR ''f'') @ ''00000000);\<newline>''
           @ ''TRST ON;\<newline>\<newline>'')
          (Some 0)"
proof -
  note w = empty_buffer_one_pass [of "0x800000" x86_host MODE_WRITE "[]" None]
  note ew = empty_buffer_one_pass [of "0x800000" x86_host "MODE_ERASE OR MODE_WRITE" "[]" None]
  note v = empty_buffer_one_pass [of "0x800000" x86_host MODE_VERIFY "[]" None]
  have b: "MODE_WRITE AND MODE_WRITE \<noteq> 0" "MODE_WRITE AND MODE_ERASE = 0"
    "(MODE_ERASE OR MODE_WRITE) AND MODE_WRITE \<noteq> 0"
    "(MODE_ERASE OR MODE_WRITE) AND MODE_ERASE \<noteq> 0"
    "(MODE_ERASE OR MODE_WRITE) AND MODE_VERIFY = 0"
    "MODE_VERIFY AND MODE_VERIFY \<noteq> 0" "MODE_VERIFY AND MODE_WRITE = 0"
    "MODE_VERIFY AND MODE_ERASE = 0"
    by (simp_all add: mode_defs)
  note ev = spec_hex_rendering_ff be_bytes_examples spec_hex_rendering_examples
    printf_0x_example wait_x86_host write_enable_def write_disable_def
  from w b have "printed (page_pass x86_host MODE_WRITE [] 0x800000 None)
       = ''! Write enable\<newline>SDR 8 TDI(60);\<newline>\<newline>''
         @ ''! Program page: 0x00800000\<newline>''
         @ ''SDR 2080 TDI ('' @ replicate 512 (CHR ''f'') @ ''00000140);\<newline>\<newline>''
         @ ''! Write disable\<newline>SDR 8 TDI(20);\<newline>\<newline>''
         @ ''RUNTEST IDLE 0.002 SEC ENDSTATE IDLE;\<newline>\<newline>''
         @ ''! Verify page: 0x00800000\<newline>''
         @ ''SDR 2080 TDI ('' @ replicate 512 (CHR ''f'') @ ''000001c0)\<newline>''
         @ ''TDO ('' @ replicate 512 (CHR ''f'') @ ''00000000)\<newline>''
         @ ''MASK ('' @ replicate 512 (CHR ''f'') @ ''00000000);\<newline>''"
    by (simp add: ev)
  moreover from ew b
  have "printed (page_pass x86_host (MODE_ERASE OR MODE_WRITE) [] 0x800000 None) = []"
    by simp
  moreover
  from v b have pv: "page_pass x86_host MODE_VERIFY [] 0x800000 None
      = \<lparr>printed =
           ''! Verify page: 0x00800000\<newline>''
           @ ''SDR 2080 TDI ('' @ replicate 512 (CHR ''f'') @ ''000001c0)\<newline>''
           @ ''TDO ('' @ replicate 512 (CHR ''f'') @ ''00000000)\<newline>''
           @ ''MASK ('' @ replicate 512 (CHR ''f'') @ ''00000000);\<newline>'',
         rc = Some 0, goto_out = False\<rparr>"
    by (simp add: ev)
  from v [THEN conjunct2, THEN conjunct2, THEN conjunct1] b
  have "generate_svf x86_host [] 0x800000 MODE_VERIFY
       = Returned
          (''TRST OFF;\<newline>\<newline>''
           @ ''FREQUENCY 5.00e+006 HZ;\<newline>\<newline>''
           @ ''! Write enable\<newline>SDR 8 TDI(60);\<newline>\<newline>''
           @ ''! Clear software protect\<newline>SDR 16 TDI(0080);\<newline>\<newline>''
           @ ''! Write disable\<newline>SDR 8 TDI(20);\<newline>\<newline>''
           @ ''RUNTEST IDLE 0.1 SEC ENDSTATE IDLE;\<newline>\<newline>''
           @ ''! Check no software protect\<newline>''
           @ ''SDR 16 TDI(ffa0) TDO(c6ff) MASK(3900);\<newline>\<newline>''
           @ ''! Verify page: 0x00800000\<newline>''
           @ ''SDR 2080 TDI ('' @ replicate 512 (CHR ''f'') @ ''000001c0)\<newline>''
           @ ''TDO ('' @ replicate 512 (CHR ''f'') @ ''00000000)\<newline>''
           @ ''MASK ('' @ replicate 512 (CHR ''f'') @ ''00000000);\<newline>''
           @ ''TRST ON;\<newline>\<newline>'')
          (Some 0)"
    by (simp add: pv trst_def set_frequency_def write_enable_def clear_software_protect_def
        write_disable_def wait_x86_host check_no_software_protect_def)
  ultimately show ?thesis using b by blast
qed

lemma set_buf_passes: "set buf = (\<Union>p \<in> set (passes buf addr). set (snd p))"
proof -
  have "set buf = set (concat (map snd (passes buf addr)))"
    by (simp add: concat_passes)
  then show ?thesis by simp
qed

text \<open>
  C10. \<^verbatim>\<open>generate_svf\<close> always returns. When no pass prints anything, that is when no
  program and no verify step runs (\<open>VERIFY\<close> clear, and \<open>WRITE\<close> clear or \<open>ERASE\<close> set
  with every byte of the buffer \<open>0xFF\<close>), it returns \<^verbatim>\<open>rc\<close> never assigned (\<open>None\<close>);
  in every other run it returns 0.
\<close>

theorem generate_svf_return_value:
  "(\<exists>t. generate_svf h buf addr mode =
          Returned t (if mode AND MODE_VERIFY = 0
                         \<and> (mode AND MODE_WRITE = 0
                            \<or> (mode AND MODE_ERASE \<noteq> 0 \<and> (\<forall>b \<in> set buf. b = 0xFF)))
                      then None else Some 0))
   \<and> ((mode AND MODE_VERIFY = 0
          \<and> (mode AND MODE_WRITE = 0 \<or> (mode AND MODE_ERASE \<noteq> 0 \<and> (\<forall>b \<in> set buf. b = 0xFF))))
        \<longleftrightarrow> (\<forall>p \<in> set (passes buf addr). printed (page_pass h mode (snd p) (fst p) None) = []))"
proof
  from generate_svf_result [of h buf addr mode]
  show "\<exists>t. generate_svf h buf addr mode =
          Returned t (if mode AND MODE_VERIFY = 0
                         \<and> (mode AND MODE_WRITE = 0
                            \<or> (mode AND MODE_ERASE \<noteq> 0 \<and> (\<forall>b \<in> set buf. b = 0xFF)))
                      then None else Some 0)"
    by blast
  obtain p0 where p0: "p0 \<in> set (passes buf addr)"
    using passes_nonempty [of buf addr] by (cases "passes buf addr") auto
  show "(mode AND MODE_VERIFY = 0
          \<and> (mode AND MODE_WRITE = 0 \<or> (mode AND MODE_ERASE \<noteq> 0 \<and> (\<forall>b \<in> set buf. b = 0xFF))))
        \<longleftrightarrow> (\<forall>p \<in> set (passes buf addr). printed (page_pass h mode (snd p) (fst p) None) = [])"
    unfolding printed_page_pass_empty set_buf_passes [of buf addr]
    using p0 by auto
qed

theorem generate_svf_return_value_witness:
  "(\<exists>t. generate_svf x86_host [0x12] 0x800000 MODE_ERASE = Returned t None)
   \<and> (\<exists>t. generate_svf x86_host (replicate 300 0xFF) 0x800000 (MODE_ERASE OR MODE_WRITE)
            = Returned t None)
   \<and> (\<exists>t. generate_svf x86_host [0x12] 0x800000 (MODE_ERASE OR MODE_WRITE)
            = Returned t (Some 0))"
proof -
  from generate_svf_return_value [of x86_host "[0x12]" "0x800000" MODE_ERASE]
  have "\<exists>t. generate_svf x86_host [0x12] 0x800000 MODE_ERASE = Returned t None"
    by (simp add: mode_defs)
  moreover
  from generate_svf_return_value
         [of x86_host "replicate 300 0xFF" "0x800000" "MODE_ERASE OR MODE_WRITE"]
  have "\<exists>t. generate_svf x86_host (replicate 300 0xFF) 0x800000 (MODE_ERASE OR MODE_WRITE)
            = Returned t None"
    by (simp add: mode_defs)
  moreover
  from generate_svf_return_value [of x86_host "[0x12]" "0x800000" "MODE_ERASE OR MODE_WRITE"]
  have "\<exists>t. generate_svf x86_host [0x12] 0x800000 (MODE_ERASE OR MODE_WRITE)
            = Returned t (Some 0)"
    by (simp add: mode_defs)
  ultimately show ?thesis by blast
qed

end
